theory Spec2Isabelle
  imports Main
begin

section \<open>ColorfulTodo: the Task model, the TaskStore and the list view of app.js\<close>

subsection \<open>JavaScript values\<close>

text \<open>
  The values that reach a task's fields are the values of JSON (what \<^verbatim>\<open>JSON.parse\<close>
  builds) and \<^verbatim>\<open>undefined\<close>. The numbers of JSON are modelled as integers: fractions
  and magnitudes that a double does not hold exactly are outside the model (\<^verbatim>\<open>NaN\<close>
  and the infinities are never the result of \<^verbatim>\<open>JSON.parse\<close>). A \<open>char\<close> stands for a UTF-16 code unit below 256
  (the Latin-1 range), where \<^verbatim>\<open>toLowerCase\<close> works character by character; strings
  with other code units are outside the model. An object is the list of its own
  properties, each key once.
\<close>

datatype json =
    JNull
  | JBool bool
  | JNum int
  | JStr string
  | JArr "json list"
  | JObj "(string \<times> json) list"

text \<open>\<open>None\<close> is \<^verbatim>\<open>undefined\<close>.\<close>

type_synonym jsval = "json option"

datatype error = TypeError | SyntaxError | QuotaExceededError

text \<open>JavaScript's truthiness (\<^verbatim>\<open>!v\<close>, \<^verbatim>\<open>a && b\<close>, \<^verbatim>\<open>c ? x : y\<close>).\<close>

fun truthy :: "jsval \<Rightarrow> bool" where
  "truthy None = False"
| "truthy (Some JNull) = False"
| "truthy (Some (JBool b)) = b"
| "truthy (Some (JNum n)) = (n \<noteq> 0)"
| "truthy (Some (JStr s)) = (s \<noteq> [])"
| "truthy (Some (JArr xs)) = True"
| "truthy (Some (JObj kvs)) = True"

text \<open>
  \<^verbatim>\<open>a === b\<close> where \<open>a\<close> is a value freshly built by \<^verbatim>\<open>JSON.parse\<close> (a field of a
  task that \<open>load\<close> has just made) and \<open>b\<close> comes from the caller: primitives are
  compared by type and value; an array or an object is only identical to itself, and a
  freshly parsed one is identical to nothing the caller holds.
\<close>

fun strict_eq :: "jsval \<Rightarrow> jsval \<Rightarrow> bool" where
  "strict_eq None None = True"
| "strict_eq (Some JNull) (Some JNull) = True"
| "strict_eq (Some (JBool a)) (Some (JBool b)) = (a = b)"
| "strict_eq (Some (JNum a)) (Some (JNum b)) = (a = b)"
| "strict_eq (Some (JStr a)) (Some (JStr b)) = (a = b)"
| "strict_eq _ _ = False"

fun Array_isArray :: "json \<Rightarrow> bool" where
  "Array_isArray (JArr xs) = True"
| "Array_isArray v = False"

fun elements :: "json \<Rightarrow> json list" where
  "elements (JArr xs) = xs"
| "elements v = []"

text \<open>Property access \<^verbatim>\<open>item.k\<close> for a key that no prototype defines
  (\<^verbatim>\<open>id\<close>, \<^verbatim>\<open>text\<close>, \<^verbatim>\<open>completed\<close>): \<^verbatim>\<open>null.k\<close> throws a TypeError, an object
  gives its own property or \<^verbatim>\<open>undefined\<close>, every other value gives \<^verbatim>\<open>undefined\<close>.\<close>

fun get_prop :: "json \<Rightarrow> string \<Rightarrow> error + jsval" where
  "get_prop JNull k = Inl TypeError"
| "get_prop (JObj kvs) k = Inr (map_of kvs k)"
| "get_prop v k = Inr None"

subsection \<open>Strings\<close>

text \<open>Decimal digits of a natural number, and \<^verbatim>\<open>String(n)\<close> for an integer. This is
  what JavaScript prints for the integers that a double holds exactly; for larger
  magnitudes it rounds or uses an exponent, which is outside the model.\<close>

fun digits :: "nat \<Rightarrow> string" where
  "digits n = (if n < 10 then [char_of (48 + n)] else digits (n div 10) @ [char_of (48 + n mod 10)])"

definition String_int :: "int \<Rightarrow> string" where
  "String_int n = (if n < 0 then CHR ''-'' # digits (nat (- n)) else digits (nat n))"

fun join :: "string \<Rightarrow> string list \<Rightarrow> string" where
  "join sep [] = []"
| "join sep [x] = x"
| "join sep (x # y # ys) = x @ sep @ join sep (y # ys)"

text \<open>\<^verbatim>\<open>String(v)\<close>, the conversion behind \<^verbatim>\<open>li.dataset.id = task.id\<close>, the template
  literal and the handler's \<^verbatim>\<open>String(t.id)\<close>. An array joins its elements with commas,
  \<^verbatim>\<open>null\<close> elements as empty strings. An object prints through
  \<^verbatim>\<open>Object.prototype.toString\<close>; an object that has a property \<^verbatim>\<open>toString\<close> or
  \<^verbatim>\<open>valueOf\<close> of its own is outside the model.\<close>

fun String_json :: "json \<Rightarrow> string" where
  "String_json JNull = ''null''"
| "String_json (JBool b) = (if b then ''true'' else ''false'')"
| "String_json (JNum n) = String_int n"
| "String_json (JStr s) = s"
| "String_json (JArr xs) = join '','' (map (\<lambda>x. if x = JNull then [] else String_json x) xs)"
| "String_json (JObj kvs) = ''[object Object]''"

definition String_of :: "jsval \<Rightarrow> string" where
  "String_of v = (case v of None \<Rightarrow> ''undefined'' | Some j \<Rightarrow> String_json j)"

text \<open>\<^verbatim>\<open>toLowerCase\<close> on the Latin-1 range: A-Z and the accented capitals U+00C0-U+00DE
  (without the multiplication sign U+00D7) move up by 32.\<close>

definition lower_char :: "char \<Rightarrow> char" where
  "lower_char c =
     (let n = (of_char c :: nat)
      in if (65 \<le> n \<and> n \<le> 90) \<or> (192 \<le> n \<and> n \<le> 222 \<and> n \<noteq> 215) then char_of (n + 32) else c)"

definition toLowerCase :: "string \<Rightarrow> string" where
  "toLowerCase s = map lower_char s"

text \<open>\<^verbatim>\<open>s.includes(t)\<close>: \<open>t\<close> occurs in \<open>s\<close> at some position.\<close>

fun starts_with :: "string \<Rightarrow> string \<Rightarrow> bool" where
  "starts_with s [] = True"
| "starts_with [] (c # t) = False"
| "starts_with (d # s) (c # t) = (d = c \<and> starts_with s t)"

fun includes_str :: "string \<Rightarrow> string \<Rightarrow> bool" where
  "includes_str [] t = (t = [])"
| "includes_str (c # s) t = (starts_with (c # s) t \<or> includes_str s t)"

text \<open>\<^verbatim>\<open>trim\<close>: the white space and line terminators of the Latin-1 range are TAB, LF,
  VT, FF, CR, SP and NBSP.\<close>

definition is_space :: "char \<Rightarrow> bool" where
  "is_space c = (let n = (of_char c :: nat) in (9 \<le> n \<and> n \<le> 13) \<or> n = 32 \<or> n = 160)"

definition trim :: "string \<Rightarrow> string" where
  "trim s = rev (dropWhile is_space (rev (dropWhile is_space s)))"

subsection \<open>The Task model\<close>

record Task =
  task_id :: jsval
  task_text :: jsval
  task_completed :: jsval

text \<open>\<^verbatim>\<open>constructor(id, text, completed = false)\<close>: the default applies when the
  argument is \<^verbatim>\<open>undefined\<close>.\<close>

definition new_Task :: "jsval \<Rightarrow> jsval \<Rightarrow> jsval \<Rightarrow> Task" where
  "new_Task i t c =
     \<lparr>task_id = i, task_text = t,
      task_completed = (case c of None \<Rightarrow> Some (JBool False) | Some v \<Rightarrow> Some v)\<rparr>"

definition toggleComplete :: "Task \<Rightarrow> Task" where
  "toggleComplete t = t\<lparr>task_completed := Some (JBool (\<not> truthy (task_completed t)))\<rparr>"

text \<open>\<^verbatim>\<open>serialize()\<close> returns a plain object with the three properties, in this order;
  a property may hold \<^verbatim>\<open>undefined\<close>.\<close>

definition serialize :: "Task \<Rightarrow> (string \<times> jsval) list" where
  "serialize t = [(''id'', task_id t), (''text'', task_text t), (''completed'', task_completed t)]"

subsection \<open>localStorage, the console and the page\<close>

text \<open>
  \<^verbatim>\<open>JSON.parse\<close> and \<^verbatim>\<open>JSON.stringify\<close> belong to the platform, not to the program.
  A stored string is represented by what the program can observe of it: whether it is
  empty (then \<^verbatim>\<open>!raw\<close> holds), and what \<^verbatim>\<open>JSON.parse\<close> makes of it, a value or a
  SyntaxError. The empty string is not JSON. That \<^verbatim>\<open>JSON.parse\<close> reads back the value
  that \<^verbatim>\<open>JSON.stringify\<close> wrote is the platform's contract, and part of this
  representation.
\<close>

datatype raw = Empty_text | Malformed_text | Json_text json

fun JSON_parse :: "raw \<Rightarrow> error + json" where
  "JSON_parse (Json_text v) = Inr v"
| "JSON_parse Empty_text = Inl SyntaxError"
| "JSON_parse Malformed_text = Inl SyntaxError"

text \<open>\<^verbatim>\<open>JSON.stringify\<close> of an array of plain objects: a property holding
  \<^verbatim>\<open>undefined\<close> is left out.\<close>

definition JSON_object :: "(string \<times> jsval) list \<Rightarrow> json" where
  "JSON_object ps = JObj (concat (map (\<lambda>(k, v). case v of None \<Rightarrow> [] | Some j \<Rightarrow> [(k, j)]) ps))"

definition JSON_stringify :: "(string \<times> jsval) list list \<Rightarrow> raw" where
  "JSON_stringify objs = Json_text (JArr (map JSON_object objs))"

text \<open>A number given as an index: an integer or \<^verbatim>\<open>NaN\<close>. An argument that is left out
  is \<^verbatim>\<open>undefined\<close> (\<open>None\<close>).\<close>

datatype number = Finite int | NaN

type_synonym index = "number option"

datatype log =
    Failed_to_parse error
  | Failed_to_save error
  | Update_not_found jsval
  | Delete_not_found jsval
  | Invalid_reorder index index
  | List_not_found

text \<open>One row of the rendered list: the \<^verbatim>\<open>data-id\<close> attribute, whether the row is
  marked completed (class and checkbox), and the text put into the markup.\<close>

record row =
  data_id :: string
  row_completed :: bool
  row_text :: string

text \<open>
  The state the program reads and writes: the string stored under \<^verbatim>\<open>STORAGE_KEY\<close>
  (\<open>None\<close> when the key is absent), which strings \<^verbatim>\<open>setItem\<close> accepts in this state
  (on the others it throws, as a browser does when the quota is exceeded), the console,
  the module's three variables, and the children of \<^verbatim>\<open>#task-list\<close> (\<open>None\<close> when the
  page has no such element).
\<close>

record state =
  stored :: "raw option"
  fits :: "raw \<Rightarrow> bool"
  console :: "log list"
  tasks :: "Task list"
  currentFilter :: string
  currentSearch :: string
  listEl :: "row list option"

definition console_log :: "log \<Rightarrow> state \<Rightarrow> state" where
  "console_log l st = st\<lparr>console := console st @ [l]\<rparr>"

definition getItem :: "state \<Rightarrow> raw option" where
  "getItem st = stored st"

definition setItem :: "raw \<Rightarrow> state \<Rightarrow> error + state" where
  "setItem r st = (if fits st r then Inr (st\<lparr>stored := Some r\<rparr>) else Inl QuotaExceededError)"

subsection \<open>TaskStore\<close>

text \<open>The callback of \<^verbatim>\<open>data.map\<close> in \<open>load\<close>:
  \<^verbatim>\<open>item => new Task(item.id, item.text, item.completed)\<close>.\<close>

definition from_item :: "json \<Rightarrow> error + Task" where
  "from_item item =
     (case get_prop item ''id'' of Inl e \<Rightarrow> Inl e | Inr i \<Rightarrow>
      (case get_prop item ''text'' of Inl e \<Rightarrow> Inl e | Inr t \<Rightarrow>
       (case get_prop item ''completed'' of Inl e \<Rightarrow> Inl e | Inr c \<Rightarrow> Inr (new_Task i t c))))"

fun map_items :: "json list \<Rightarrow> error + Task list" where
  "map_items [] = Inr []"
| "map_items (item # items) =
     (case from_item item of Inl e \<Rightarrow> Inl e | Inr t \<Rightarrow>
      (case map_items items of Inl e \<Rightarrow> Inl e | Inr ts \<Rightarrow> Inr (t # ts)))"

text \<open>\<open>load\<close> returns the tasks and the state, which differs only by a console line
  when the \<^verbatim>\<open>catch\<close> ran.\<close>

definition TaskStore_load :: "state \<Rightarrow> Task list \<times> state" where
  "TaskStore_load st =
     (case getItem st of
        None \<Rightarrow> ([], st)
      | Some r \<Rightarrow>
          if r = Empty_text then ([], st)
          else (case JSON_parse r of
                  Inl e \<Rightarrow> ([], console_log (Failed_to_parse e) st)
                | Inr data \<Rightarrow>
                    if \<not> Array_isArray data then ([], st)
                    else (case map_items (elements data) of
                            Inl e \<Rightarrow> ([], console_log (Failed_to_parse e) st)
                          | Inr ts \<Rightarrow> (ts, st))))"

definition TaskStore_save :: "Task list \<Rightarrow> state \<Rightarrow> state" where
  "TaskStore_save ts st =
     (let serializable = map serialize ts
      in case setItem (JSON_stringify serializable) st of
           Inl e \<Rightarrow> console_log (Failed_to_save e) st
         | Inr st' \<Rightarrow> st')"

definition TaskStore_add :: "Task \<Rightarrow> state \<Rightarrow> state" where
  "TaskStore_add task st =
     (let (ts, st1) = TaskStore_load st
      in TaskStore_save (ts @ [task]) st1)"

text \<open>\<^verbatim>\<open>findIndex\<close>: the first index where the predicate holds, or -1.\<close>

fun findIndex :: "('a \<Rightarrow> bool) \<Rightarrow> 'a list \<Rightarrow> int" where
  "findIndex P [] = - 1"
| "findIndex P (x # xs) =
     (if P x then 0 else (let i = findIndex P xs in if i = - 1 then - 1 else i + 1))"

definition TaskStore_update :: "Task \<Rightarrow> state \<Rightarrow> state" where
  "TaskStore_update task st =
     (let (ts, st1) = TaskStore_load st;
          index = findIndex (\<lambda>t. strict_eq (task_id t) (task_id task)) ts
      in if index \<noteq> - 1 then TaskStore_save (ts[nat index := task]) st1
         else console_log (Update_not_found (task_id task)) st1)"

definition TaskStore_delete :: "jsval \<Rightarrow> state \<Rightarrow> state" where
  "TaskStore_delete i st =
     (let (ts, st1) = TaskStore_load st;
          filtered = filter (\<lambda>t. \<not> strict_eq (task_id t) i) ts
      in if length filtered \<noteq> length ts then TaskStore_save filtered st1
         else console_log (Delete_not_found i) st1)"

text \<open>\<^verbatim>\<open>index < k\<close> and \<^verbatim>\<open>index >= k\<close> for an integer \<open>k\<close>: both are false when the
  index is \<^verbatim>\<open>NaN\<close> or \<^verbatim>\<open>undefined\<close> (which the comparison converts to \<^verbatim>\<open>NaN\<close>).\<close>

fun less_than_int :: "index \<Rightarrow> int \<Rightarrow> bool" where
  "less_than_int (Some (Finite i)) k = (i < k)"
| "less_than_int v k = False"

fun at_least_int :: "index \<Rightarrow> int \<Rightarrow> bool" where
  "at_least_int (Some (Finite i)) k = (i \<ge> k)"
| "at_least_int v k = False"

text \<open>\<^verbatim>\<open>splice\<close> converts its start with \<^verbatim>\<open>ToIntegerOrInfinity\<close>, which gives 0 for
  \<^verbatim>\<open>NaN\<close> and \<^verbatim>\<open>undefined\<close>; a negative start counts from the end, and the result
  is kept within the array.\<close>

fun ToIntegerOrInfinity :: "index \<Rightarrow> int" where
  "ToIntegerOrInfinity (Some (Finite i)) = i"
| "ToIntegerOrInfinity v = 0"

definition splice_start :: "index \<Rightarrow> nat \<Rightarrow> nat" where
  "splice_start start len =
     (let r = ToIntegerOrInfinity start
      in if r < 0 then nat (max (int len + r) 0) else min (nat r) len)"

text \<open>\<^verbatim>\<open>xs.splice(start, deleteCount, ...items)\<close> at a start position within the
  array: the removed elements and the array afterwards.\<close>

definition splice_array :: "nat \<Rightarrow> nat \<Rightarrow> 'a list \<Rightarrow> 'a list \<Rightarrow> 'a list \<times> 'a list" where
  "splice_array start n items xs = (take n (drop start xs), take start xs @ items @ drop (start + n) xs)"

text \<open>\<open>save\<close> called on an array that may hold \<^verbatim>\<open>undefined\<close> (\<open>None\<close>):
  \<^verbatim>\<open>task.serialize()\<close> in the \<^verbatim>\<open>map\<close> of \<open>save\<close> throws a TypeError on it, outside
  the \<^verbatim>\<open>try\<close>, so the exception leaves \<open>save\<close> and its caller.\<close>

definition save_array :: "Task option list \<Rightarrow> state \<Rightarrow> (error \<times> state) + state" where
  "save_array arr st =
     (case those arr of
        None \<Rightarrow> Inl (TypeError, st)
      | Some ts \<Rightarrow> Inr (TaskStore_save ts st))"

text \<open>\<open>reorder\<close>. The destructuring \<^verbatim>\<open>[moved]\<close> gives \<^verbatim>\<open>undefined\<close> when the first
  \<^verbatim>\<open>splice\<close> removed nothing; the second one then inserts \<^verbatim>\<open>undefined\<close>.\<close>

definition TaskStore_reorder :: "index \<Rightarrow> index \<Rightarrow> state \<Rightarrow> (error \<times> state) + state" where
  "TaskStore_reorder oldIndex newIndex st =
     (let (ts, st1) = TaskStore_load st
      in if less_than_int oldIndex 0 \<or> at_least_int oldIndex (int (length ts))
            \<or> less_than_int newIndex 0 \<or> at_least_int newIndex (int (length ts))
         then Inr (console_log (Invalid_reorder oldIndex newIndex) st1)
         else (let arr = map Some ts;
                   (removed, arr1) = splice_array (splice_start oldIndex (length arr)) 1 [] arr;
                   moved = (case removed of [] \<Rightarrow> None | m # _ \<Rightarrow> m);
                   (_, arr2) = splice_array (splice_start newIndex (length arr1)) 0 [moved] arr1
               in save_array arr2 st1))"

subsection \<open>Rendering\<close>

text \<open>The callback of \<^verbatim>\<open>tasks.filter\<close> in \<open>renderTasks\<close>. Both constants are
  computed for every task, so \<^verbatim>\<open>task.text.toLowerCase()\<close> throws a TypeError on a
  text that is not a string whatever the filter says.\<close>

definition matchesFilter :: "string \<Rightarrow> Task \<Rightarrow> bool" where
  "matchesFilter flt task =
     (flt = ''all'' \<or>
      (flt = ''active'' \<and> \<not> truthy (task_completed task)) \<or>
      (flt = ''completed'' \<and> truthy (task_completed task)))"

definition matchesSearch :: "string \<Rightarrow> Task \<Rightarrow> error + bool" where
  "matchesSearch searchTerm task =
     (case task_text task of
        Some (JStr s) \<Rightarrow> Inr (includes_str (toLowerCase s) (toLowerCase searchTerm))
      | _ \<Rightarrow> Inl TypeError)"

fun filter_tasks :: "string \<Rightarrow> string \<Rightarrow> Task list \<Rightarrow> error + Task list" where
  "filter_tasks flt searchTerm [] = Inr []"
| "filter_tasks flt searchTerm (task # rest) =
     (case matchesSearch searchTerm task of
        Inl e \<Rightarrow> Inl e
      | Inr found \<Rightarrow>
          (case filter_tasks flt searchTerm rest of
             Inl e \<Rightarrow> Inl e
           | Inr shown \<Rightarrow> Inr (if matchesFilter flt task \<and> found then task # shown else shown)))"

definition render_row :: "Task \<Rightarrow> row" where
  "render_row task =
     \<lparr>data_id = String_of (task_id task),
      row_completed = truthy (task_completed task),
      row_text = String_of (task_text task)\<rparr>"

text \<open>
  \<open>renderTasks\<close>: an argument that is not given (\<open>None\<close>) takes the current value.
  The two variables are updated first; without \<^verbatim>\<open>#task-list\<close> an error is logged and
  nothing is drawn; otherwise the list is emptied and then filled. An exception leaves
  the state as it was when it was thrown, which \<open>Inl\<close> carries.
\<close>

definition renderTasks :: "string option \<Rightarrow> string option \<Rightarrow> state \<Rightarrow> (error \<times> state) + state" where
  "renderTasks flt_arg search_arg st =
     (let flt = (case flt_arg of None \<Rightarrow> currentFilter st | Some f \<Rightarrow> f);
          searchTerm = (case search_arg of None \<Rightarrow> currentSearch st | Some s \<Rightarrow> s);
          st1 = st\<lparr>currentFilter := flt, currentSearch := searchTerm\<rparr>
      in case listEl st1 of
           None \<Rightarrow> Inr (console_log List_not_found st1)
         | Some _ \<Rightarrow>
             (let st2 = st1\<lparr>listEl := Some []\<rparr>
              in case filter_tasks flt searchTerm (tasks st2) of
                   Inl e \<Rightarrow> Inl (e, st2)
                 | Inr shown \<Rightarrow> Inr (st2\<lparr>listEl := Some (map render_row shown)\<rparr>)))"

subsection \<open>The click handler\<close>

text \<open>
  A click is described by what the handler asks of it: the \<^verbatim>\<open>data-id\<close> of the closest
  \<^verbatim>\<open>li\<close> (\<open>None\<close> when there is no such ancestor), and which selector the target
  matches. \<^verbatim>\<open>prompt\<close> answers with a string, or \<^verbatim>\<open>null\<close> (\<open>None\<close>) on cancel.
\<close>

datatype target = Task_checkbox | Edit_btn | Delete_btn | Elsewhere

text \<open>\<^verbatim>\<open>tasks.find(t => String(t.id) === String(id))\<close> gives the first such task
  object; the handler then changes that object, which is the array's element at that
  position, so the model finds the position.\<close>

fun find_task :: "string \<Rightarrow> Task list \<Rightarrow> nat option" where
  "find_task i [] = None"
| "find_task i (t # ts) =
     (if String_of (task_id t) = i then Some 0 else map_option Suc (find_task i ts))"

definition on_click :: "target \<Rightarrow> string option \<Rightarrow> string option \<Rightarrow> state \<Rightarrow> (error \<times> state) + state" where
  "on_click tgt li answer st =
     (case li of
        None \<Rightarrow> Inr st
      | Some i \<Rightarrow>
          (case find_task i (tasks st) of
             None \<Rightarrow> Inr st
           | Some k \<Rightarrow>
               (let task = tasks st ! k
                in case tgt of
                     Task_checkbox \<Rightarrow>
                       (let task' = toggleComplete task;
                            st1 = st\<lparr>tasks := (tasks st)[k := task']\<rparr>
                        in renderTasks None None (TaskStore_update task' st1))
                   | Edit_btn \<Rightarrow>
                       (case answer of
                          None \<Rightarrow> Inr st
                        | Some newText \<Rightarrow>
                            (let trimmed = trim newText
                             in if trimmed \<noteq> []
                                then (let task' = task\<lparr>task_text := Some (JStr trimmed)\<rparr>;
                                          st1 = st\<lparr>tasks := (tasks st)[k := task']\<rparr>
                                      in renderTasks None None (TaskStore_update task' st1))
                                else Inr st))
                   | Delete_btn \<Rightarrow>
                       (let st1 = TaskStore_delete (task_id task) st;
                            (ts, st2) = TaskStore_load st1
                        in renderTasks None None (st2\<lparr>tasks := ts\<rparr>))
                   | Elsewhere \<Rightarrow> Inr st)))"

subsection \<open>Valid tasks and example states\<close>

text \<open>A valid task of the data model: the id is a string or a number, the text a
  string, the completion flag a boolean.\<close>

fun is_id :: "jsval \<Rightarrow> bool" where
  "is_id (Some (JStr s)) = True"
| "is_id (Some (JNum n)) = True"
| "is_id v = False"

fun is_string :: "jsval \<Rightarrow> bool" where
  "is_string (Some (JStr s)) = True"
| "is_string v = False"

fun is_boolean :: "jsval \<Rightarrow> bool" where
  "is_boolean (Some (JBool b)) = True"
| "is_boolean v = False"

definition valid_task :: "Task \<Rightarrow> bool" where
  "valid_task t = (is_id (task_id t) \<and> is_string (task_text t) \<and> is_boolean (task_completed t))"

text \<open>What \<open>load\<close> makes of a task that \<open>save\<close> wrote: the constructor runs again.\<close>

definition rebuilt :: "Task \<Rightarrow> Task" where
  "rebuilt t = new_Task (task_id t) (task_text t) (task_completed t)"

text \<open>A storage that takes every write, and one whose quota is used up.\<close>

definition accept_all :: "raw \<Rightarrow> bool" where
  "accept_all r = True"

definition accept_none :: "raw \<Rightarrow> bool" where
  "accept_none r = False"

definition task_A :: Task where
  "task_A = \<lparr>task_id = Some (JNum 1), task_text = Some (JStr ''Buy milk''), task_completed = Some (JBool False)\<rparr>"

definition task_B :: Task where
  "task_B = \<lparr>task_id = Some (JNum 2), task_text = Some (JStr ''Walk dog''), task_completed = Some (JBool True)\<rparr>"

definition task_C :: Task where
  "task_C = \<lparr>task_id = Some (JStr ''c''), task_text = Some (JStr ''Call Bob''), task_completed = Some (JBool False)\<rparr>"

text \<open>A page with the given stored string, storage behaviour and tasks in memory,
  showing everything, with an empty list element.\<close>

definition page :: "raw option \<Rightarrow> (raw \<Rightarrow> bool) \<Rightarrow> Task list \<Rightarrow> state" where
  "page r f ts =
     \<lparr>stored = r, fits = f, console = [], tasks = ts,
      currentFilter = ''all'', currentSearch = [], listEl = Some []\<rparr>"

text \<open>The string that \<open>save\<close> writes for a list of tasks.\<close>

definition written :: "Task list \<Rightarrow> raw" where
  "written ts = JSON_stringify (map serialize ts)"

subsection \<open>The visible subset, in the specification's words\<close>

text \<open>
  The specification describes the view independently of the code: the filter is one of
  all, active and completed (all: always true; active: not completed; completed:
  completed), and the search term matches a text when some substring of the text equals
  the term up to the case of its letters. These definitions follow those words and use
  nothing of the code; the code's \<open>matchesFilter\<close> and \<open>matchesSearch\<close> are compared
  with them below.
\<close>

datatype view_filter = All | Active | Completed

fun filter_name :: "view_filter \<Rightarrow> string" where
  "filter_name All = ''all''"
| "filter_name Active = ''active''"
| "filter_name Completed = ''completed''"

fun spec_filter_predicate :: "view_filter \<Rightarrow> Task \<Rightarrow> bool" where
  "spec_filter_predicate All t = True"
| "spec_filter_predicate Active t = (task_completed t = Some (JBool False))"
| "spec_filter_predicate Completed t = (task_completed t = Some (JBool True))"

text \<open>The letters of the Latin-1 range that have two cases, each capital with its
  small letter: A to Z, and the accented capitals U+00C0 to U+00DE (without the
  multiplication sign U+00D7) with the small letters U+00E0 to U+00FE (without the
  division sign U+00F7), given by their codes.\<close>

definition spec_case_pairs :: "(char \<times> char) list" where
  "spec_case_pairs =
     zip ''ABCDEFGHIJKLMNOPQRSTUVWXYZ'' ''abcdefghijklmnopqrstuvwxyz''
     @ map (\<lambda>(u, l). (char_of (u :: nat), char_of (l :: nat)))
         [(192, 224), (193, 225), (194, 226), (195, 227), (196, 228), (197, 229), (198, 230),
          (199, 231), (200, 232), (201, 233), (202, 234), (203, 235), (204, 236), (205, 237),
          (206, 238), (207, 239), (208, 240), (209, 241), (210, 242), (211, 243), (212, 244),
          (213, 245), (214, 246), (216, 248), (217, 249), (218, 250), (219, 251), (220, 252),
          (221, 253), (222, 254)]"

text \<open>Two characters are the same up to case when they are equal or are the two
  cases of one letter; two strings, when they are so character by character.\<close>

definition spec_same_letter :: "char \<Rightarrow> char \<Rightarrow> bool" where
  "spec_same_letter a b = (a = b \<or> (a, b) \<in> set spec_case_pairs \<or> (b, a) \<in> set spec_case_pairs)"

definition spec_same_ignoring_case :: "string \<Rightarrow> string \<Rightarrow> bool" where
  "spec_same_ignoring_case a b = list_all2 spec_same_letter a b"

definition spec_search_match :: "string \<Rightarrow> string \<Rightarrow> bool" where
  "spec_search_match q txt = (\<exists>pre mid post. txt = pre @ mid @ post \<and> spec_same_ignoring_case mid q)"

text \<open>The text of a task whose text is a string.\<close>

definition the_text :: "Task \<Rightarrow> string" where
  "the_text t = (case task_text t of Some (JStr s) \<Rightarrow> s | _ \<Rightarrow> [])"

text \<open>The persisted collection: what \<open>load\<close> returns in a state.\<close>

abbreviation loaded :: "state \<Rightarrow> Task list" where
  "loaded st \<equiv> fst (TaskStore_load st)"

section \<open>Properties\<close>

subsection \<open>What load and save do to the state\<close>

lemma console_log_simps [simp]:
  "stored (console_log l st) = stored st"
  "fits (console_log l st) = fits st"
  "tasks (console_log l st) = tasks st"
  "console (console_log l st) = console st @ [l]"
  by (simp_all add: console_log_def)

lemma load_state:
  "snd (TaskStore_load st) = st \<or> (\<exists>e. snd (TaskStore_load st) = console_log (Failed_to_parse e) st)"
  by (auto simp: TaskStore_load_def split: option.splits sum.splits)

lemma stored_load [simp]: "stored (snd (TaskStore_load st)) = stored st"
  using load_state [of st] by auto

lemma fits_load [simp]: "fits (snd (TaskStore_load st)) = fits st"
  using load_state [of st] by auto

lemma load_cong: "stored st = stored st' \<Longrightarrow> fst (TaskStore_load st) = fst (TaskStore_load st')"
  by (auto simp: TaskStore_load_def getItem_def split: option.splits sum.splits)

lemma from_item_serialize: "from_item (JSON_object (serialize t)) = Inr (rebuilt t)"
  by (cases "task_id t"; cases "task_text t"; cases "task_completed t")
     (simp_all add: from_item_def JSON_object_def serialize_def rebuilt_def)

lemma map_items_serialize: "map_items (map (JSON_object \<circ> serialize) ts) = Inr (map rebuilt ts)"
  by (induction ts) (simp_all add: from_item_serialize)

lemma rebuilt_id: "task_completed t \<noteq> None \<Longrightarrow> rebuilt t = t"
  by (auto simp: rebuilt_def new_Task_def)

lemma valid_task_completed: "valid_task t \<Longrightarrow> task_completed t \<noteq> None"
  by (auto simp: valid_task_def elim: is_boolean.elims)

lemma map_rebuilt_id: "\<forall>t\<in>set ts. task_completed t \<noteq> None \<Longrightarrow> map rebuilt ts = ts"
  by (induction ts) (simp_all add: rebuilt_id)

lemma new_Task_completed: "\<exists>y. task_completed (new_Task i t c) = Some y"
  by (simp add: new_Task_def split: option.splits)

lemma from_item_completed: "from_item item = Inr t \<Longrightarrow> task_completed t \<noteq> None"
  using new_Task_completed by (auto simp: from_item_def split: sum.splits)

lemma map_items_completed: "map_items items = Inr ts \<Longrightarrow> t \<in> set ts \<Longrightarrow> task_completed t \<noteq> None"
  by (induction items arbitrary: ts) (auto split: sum.splits dest: from_item_completed)

lemma load_completed: "t \<in> set (fst (TaskStore_load st)) \<Longrightarrow> task_completed t \<noteq> None"
  by (auto simp: TaskStore_load_def split: option.splits sum.splits if_splits dest: map_items_completed)

lemma save_accepted: "fits st (written ts) \<Longrightarrow> TaskStore_save ts st = st\<lparr>stored := Some (written ts)\<rparr>"
  by (simp add: TaskStore_save_def setItem_def written_def)

lemma save_rejected:
  "\<not> fits st (written ts) \<Longrightarrow> TaskStore_save ts st = console_log (Failed_to_save QuotaExceededError) st"
  by (simp add: TaskStore_save_def setItem_def written_def)

lemma load_written: "stored st = Some (written ts) \<Longrightarrow> TaskStore_load st = (map rebuilt ts, st)"
  by (simp add: TaskStore_load_def getItem_def JSON_stringify_def map_items_serialize written_def)

lemma load_save:
  "fst (TaskStore_load (TaskStore_save ts st)) =
     (if fits st (written ts) then map rebuilt ts else fst (TaskStore_load st))"
proof (cases "fits st (written ts)")
  case True
  then show ?thesis by (simp add: save_accepted load_written)
next
  case False
  then show ?thesis by (simp add: save_rejected load_cong [of "console_log _ st" st])
qed

lemma loaded_rebuilt: "map rebuilt (loaded st) = loaded st"
  by (intro map_rebuilt_id) (auto dest: load_completed)

lemma loaded_console_log [simp]: "loaded (console_log l st) = loaded st"
  by (rule load_cong) simp

lemma loaded_snd_load [simp]: "loaded (snd (TaskStore_load st)) = loaded st"
  by (rule load_cong) simp

lemma loaded_save:
  "loaded (TaskStore_save ts (snd (TaskStore_load st))) =
     (if fits st (written ts) then map rebuilt ts else loaded st)"
  by (simp add: load_save)

lemma page_simps [simp]: "stored (page r f m) = r" "fits (page r f m) = f" "tasks (page r f m) = m"
  by (simp_all add: page_def)

lemma loaded_page: "loaded (page (Some (written ts)) f m) = map rebuilt ts"
  by (simp add: load_written)

lemma rebuilt_examples [simp]: "rebuilt task_A = task_A" "rebuilt task_B = task_B" "rebuilt task_C = task_C"
  by (simp_all add: rebuilt_id task_A_def task_B_def task_C_def)

lemma example_ids [simp]:
  "task_id task_A = Some (JNum 1)" "task_id task_B = Some (JNum 2)" "task_id task_C = Some (JStr ''c'')"
  by (simp_all add: task_A_def task_B_def task_C_def)

subsection \<open>Arrays\<close>

lemma findIndex_ge: "- 1 \<le> findIndex P xs"
  by (induction xs) (auto simp: Let_def)

lemma findIndex_none: "(findIndex P xs = - 1) = (\<forall>x\<in>set xs. \<not> P x)"
proof (induction xs)
  case Nil
  then show ?case by simp
next
  case (Cons x xs)
  then show ?case using findIndex_ge [of P xs] by (auto simp: Let_def)
qed

lemma findIndex_first:
  "i < length xs \<Longrightarrow> P (xs ! i) \<Longrightarrow> \<forall>j<i. \<not> P (xs ! j) \<Longrightarrow> findIndex P xs = int i"
proof (induction xs arbitrary: i)
  case Nil
  then show ?case by simp
next
  case (Cons x xs)
  show ?case
  proof (cases i)
    case 0
    with Cons.prems show ?thesis by simp
  next
    case (Suc k)
    with Cons.prems have "\<not> P x" by auto
    moreover from Suc Cons.prems have "findIndex P xs = int k"
      by (intro Cons.IH) auto
    ultimately show ?thesis using Suc by (simp add: Let_def)
  qed
qed

lemma length_filter_same: "(length (filter P xs) = length xs) = (\<forall>x\<in>set xs. P x)"
  by (metis filter_id_conv length_filter_le filter_True length_filter_less linorder_not_less order_le_less)

lemma take_one_drop: "k < length xs \<Longrightarrow> take (Suc 0) (drop k xs) = [xs ! k]"
  by (simp add: Cons_nth_drop_Suc [symmetric])

lemma insert_at_shape:
  assumes "b \<le> length r"
  shows "length (take b r @ x # drop b r) = Suc (length r)"
    and "(take b r @ x # drop b r) ! b = x"
    and "take b (take b r @ x # drop b r) @ drop (Suc b) (take b r @ x # drop b r) = r"
  using assms by (simp_all add: nth_append min_def)

lemma remove_at_length: "a < length xs \<Longrightarrow> Suc (length (take a xs @ drop (Suc a) xs)) = length xs"
  by (simp add: min_def)

subsection \<open>The store's operations, unfolded\<close>

lemma update_unfold:
  "TaskStore_update task st =
     (if findIndex (\<lambda>t. strict_eq (task_id t) (task_id task)) (loaded st) \<noteq> - 1
      then TaskStore_save ((loaded st)[nat (findIndex (\<lambda>t. strict_eq (task_id t) (task_id task)) (loaded st)) := task])
             (snd (TaskStore_load st))
      else console_log (Update_not_found (task_id task)) (snd (TaskStore_load st)))"
  by (simp add: TaskStore_update_def Let_def case_prod_unfold)

lemma update_first:
  assumes "i < length (loaded st)" "strict_eq (task_id (loaded st ! i)) (task_id task)"
    "\<forall>j<i. \<not> strict_eq (task_id (loaded st ! j)) (task_id task)"
  shows "TaskStore_update task st = TaskStore_save ((loaded st)[i := task]) (snd (TaskStore_load st))"
proof -
  have "findIndex (\<lambda>t. strict_eq (task_id t) (task_id task)) (loaded st) = int i"
    using assms by (intro findIndex_first) auto
  then show ?thesis by (simp add: update_unfold)
qed

lemma update_missing:
  assumes "\<forall>t\<in>set (loaded st). \<not> strict_eq (task_id t) (task_id task)"
  shows "TaskStore_update task st = console_log (Update_not_found (task_id task)) (snd (TaskStore_load st))"
  using assms by (simp add: update_unfold findIndex_none)

lemma delete_unfold:
  "TaskStore_delete i st =
     (if length (filter (\<lambda>t. \<not> strict_eq (task_id t) i) (loaded st)) \<noteq> length (loaded st)
      then TaskStore_save (filter (\<lambda>t. \<not> strict_eq (task_id t) i) (loaded st)) (snd (TaskStore_load st))
      else console_log (Delete_not_found i) (snd (TaskStore_load st)))"
  by (simp add: TaskStore_delete_def Let_def case_prod_unfold)

lemma map_rebuilt_filter: "map rebuilt (filter P (loaded st)) = filter P (loaded st)"
  by (intro map_rebuilt_id) (auto dest: load_completed)

lemma those_map_Some: "those (map Some xs) = Some xs"
  by (induction xs) simp_all

lemma save_array_Some: "save_array (map Some ts) st = Inr (TaskStore_save ts st)"
  by (simp add: save_array_def those_map_Some)

lemma splice_start_within: "0 \<le> i \<Longrightarrow> nat i \<le> len \<Longrightarrow> splice_start (Some (Finite i)) len = nat i"
  by (simp add: splice_start_def)

lemma splice_insert_Some:
  "snd (splice_array k 0 [Some x] (map Some r)) = map Some (take k r @ x # drop k r)"
  by (simp add: splice_array_def take_map drop_map)

lemma splice_remove_Some:
  "k < length xs \<Longrightarrow>
     splice_array k 1 [] (map Some xs) = ([Some (xs ! k)], map Some (take k xs @ drop (Suc k) xs))"
  using take_one_drop [of k xs] by (simp add: splice_array_def take_map drop_map)

lemma reorder_unfold:
  "TaskStore_reorder oldIndex newIndex st =
     (if less_than_int oldIndex 0 \<or> at_least_int oldIndex (int (length (loaded st)))
         \<or> less_than_int newIndex 0 \<or> at_least_int newIndex (int (length (loaded st)))
      then Inr (console_log (Invalid_reorder oldIndex newIndex) (snd (TaskStore_load st)))
      else save_array
             (snd (splice_array
                     (splice_start newIndex
                        (length (snd (splice_array (splice_start oldIndex (length (loaded st))) 1 []
                                        (map Some (loaded st))))))
                     0
                     [case fst (splice_array (splice_start oldIndex (length (loaded st))) 1 []
                                  (map Some (loaded st))) of
                        [] \<Rightarrow> None
                      | m # _ \<Rightarrow> m]
                     (snd (splice_array (splice_start oldIndex (length (loaded st))) 1 []
                             (map Some (loaded st))))))
             (snd (TaskStore_load st)))"
  by (simp add: TaskStore_reorder_def Let_def case_prod_unfold)

lemma reorder_in_bounds:
  assumes "0 \<le> i" "i < int (length (loaded st))" "0 \<le> j" "j < int (length (loaded st))"
  shows "TaskStore_reorder (Some (Finite i)) (Some (Finite j)) st =
           Inr (TaskStore_save
             (take (nat j) (take (nat i) (loaded st) @ drop (Suc (nat i)) (loaded st))
              @ loaded st ! nat i
              # drop (nat j) (take (nat i) (loaded st) @ drop (Suc (nat i)) (loaded st)))
             (snd (TaskStore_load st)))"
proof -
  let ?ts = "loaded st"
  let ?rest = "take (nat i) ?ts @ drop (Suc (nat i)) ?ts"
  from assms have i: "nat i < length ?ts" and j: "nat j < length ?ts"
    by (auto simp: nat_less_iff)
  have si: "splice_start (Some (Finite i)) (length ?ts) = nat i"
    using assms(1) i by (intro splice_start_within) simp_all
  have first: "splice_array (nat i) 1 [] (map Some ?ts) = ([Some (?ts ! nat i)], map Some ?rest)"
    using i by (rule splice_remove_Some)
  from i have "Suc (length ?rest) = length ?ts"
    by (rule remove_at_length)
  with j have jr: "nat j \<le> length ?rest"
    by simp
  have sj: "splice_start (Some (Finite j)) (length ?rest) = nat j"
    using assms(3) jr by (intro splice_start_within) simp_all
  have second: "snd (splice_array (nat j) 0 [Some (?ts ! nat i)] (map Some ?rest)) =
                  map Some (take (nat j) ?rest @ ?ts ! nat i # drop (nat j) ?rest)"
    by (rule splice_insert_Some)
  from assms have guard: "\<not> (less_than_int (Some (Finite i)) 0 \<or> at_least_int (Some (Finite i)) (int (length ?ts))
      \<or> less_than_int (Some (Finite j)) 0 \<or> at_least_int (Some (Finite j)) (int (length ?ts)))"
    by simp
  show ?thesis
    unfolding reorder_unfold using guard
    by (simp only: if_False length_map si first fst_conv snd_conv list.case sj second save_array_Some)
qed

lemma reorder_out_of_bounds:
  assumes "\<not> (0 \<le> i \<and> i < int (length (loaded st)) \<and> 0 \<le> j \<and> j < int (length (loaded st)))"
  shows "TaskStore_reorder (Some (Finite i)) (Some (Finite j)) st =
           Inr (console_log (Invalid_reorder (Some (Finite i)) (Some (Finite j))) (snd (TaskStore_load st)))"
  using assms by (auto simp: reorder_unfold)

subsection \<open>Round trip through the storage\<close>

text \<open>
  C1, as the code has it. For every sequence \<open>T\<close> of valid tasks, \<open>load\<close> after
  \<open>save T\<close> returns \<open>T\<close> itself (same ids, texts, flags and order) when
  \<^verbatim>\<open>setItem\<close> accepts the string that \<open>save\<close> writes; when \<^verbatim>\<open>setItem\<close> throws, \<open>save\<close>
  swallows the exception and \<open>load\<close> still returns what was stored before. The
  deserialization of \<open>load\<close> undoes \<open>serialize\<close> on every valid task, and
  \<open>serialize\<close> undoes the deserialization on every record with the three properties
  \<^verbatim>\<open>id\<close>, \<^verbatim>\<open>text\<close> and \<^verbatim>\<open>completed\<close>.
\<close>

theorem save_load_round_trip:
  assumes "\<forall>t\<in>set T. valid_task t"
  shows "fst (TaskStore_load (TaskStore_save T st)) =
           (if fits st (written T) then T else fst (TaskStore_load st))
         \<and> map_items (map JSON_object (map serialize T)) = Inr T
         \<and> from_item (JObj [(''id'', i), (''text'', x), (''completed'', c)])
               = Inr (new_Task (Some i) (Some x) (Some c))
         \<and> JSON_object (serialize (new_Task (Some i) (Some x) (Some c)))
               = JObj [(''id'', i), (''text'', x), (''completed'', c)]"
proof -
  from assms have T: "map rebuilt T = T"
    by (intro map_rebuilt_id) (auto dest: valid_task_completed)
  have "fst (TaskStore_load (TaskStore_save T st)) =
          (if fits st (written T) then T else fst (TaskStore_load st))"
    by (simp add: load_save T)
  moreover have "map_items (map JSON_object (map serialize T)) = Inr T"
    by (simp add: map_items_serialize T)
  moreover have "from_item (JObj [(''id'', i), (''text'', x), (''completed'', c)])
                   = Inr (new_Task (Some i) (Some x) (Some c))"
    by (simp add: from_item_def)
  moreover have "JSON_object (serialize (new_Task (Some i) (Some x) (Some c)))
                   = JObj [(''id'', i), (''text'', x), (''completed'', c)]"
    by (simp add: JSON_object_def serialize_def new_Task_def)
  ultimately show ?thesis by simp
qed

text \<open>The round trip of two valid tasks through a storage that accepts the write.\<close>

theorem save_load_round_trip_witness:
  "valid_task task_A \<and> valid_task task_B \<and>
   fits (page None accept_all []) (written [task_A, task_B]) \<and>
   fst (TaskStore_load (TaskStore_save [task_A, task_B] (page None accept_all []))) = [task_A, task_B]"
proof -
  have v: "\<forall>t\<in>set [task_A, task_B]. valid_task t"
    by (simp add: valid_task_def task_A_def task_B_def)
  have f: "fits (page None accept_all []) (written [task_A, task_B])"
    by (simp add: page_def accept_all_def)
  from save_load_round_trip [OF v, of "page None accept_all []", THEN conjunct1] f v show ?thesis
    by simp
qed

text \<open>With the quota used up, \<open>save\<close> of one valid task followed by \<open>load\<close> returns
  the empty list, not the task.\<close>

theorem save_load_round_trip_counterexample:
  "valid_task task_A \<and>
   fst (TaskStore_load (TaskStore_save [task_A] (page None accept_none []))) = [] \<and>
   fst (TaskStore_load (TaskStore_save [task_A] (page None accept_none []))) \<noteq> [task_A]"
proof -
  have "TaskStore_save [task_A] (page None accept_none []) =
          console_log (Failed_to_save QuotaExceededError) (page None accept_none [])"
    by (simp add: TaskStore_save_def setItem_def accept_none_def page_def)
  moreover have "fst (TaskStore_load (console_log (Failed_to_save QuotaExceededError) (page None accept_none []))) = []"
    by (simp add: TaskStore_load_def getItem_def page_def)
  moreover have "valid_task task_A"
    by (simp add: valid_task_def task_A_def)
  ultimately show ?thesis by simp
qed

subsection \<open>Loading what cannot be read\<close>

text \<open>
  C2, as the code has it. \<open>load\<close> never throws. Without a stored value it returns the
  empty list. For a stored value that is not JSON it returns the empty list, and logs
  the failure unless the value is the empty string (for which \<^verbatim>\<open>!raw\<close> returns early).
  For a stored value that parses to something that is not an array it returns the
  empty list and logs nothing. For an array on which the deserialization throws (a
  \<^verbatim>\<open>null\<close> element) it logs the failure and returns the empty list.
\<close>

theorem load_never_fails:
  "(stored st = None \<longrightarrow> TaskStore_load st = ([], st)) \<and>
   (stored st = Some r \<and> JSON_parse r = Inl e \<longrightarrow>
      TaskStore_load st = ([], if r = Empty_text then st else console_log (Failed_to_parse e) st)) \<and>
   (stored st = Some r \<and> JSON_parse r = Inr v \<and> \<not> Array_isArray v \<longrightarrow>
      TaskStore_load st = ([], st)) \<and>
   (stored st = Some r \<and> JSON_parse r = Inr v \<and> Array_isArray v \<and> map_items (elements v) = Inl e \<longrightarrow>
      TaskStore_load st = ([], console_log (Failed_to_parse e) st))"
  by (cases r) (auto simp: TaskStore_load_def getItem_def)

text \<open>The four cases at concrete stored values: nothing, a string that is not JSON,
  the JSON number 7, and the JSON array \<^verbatim>\<open>[null]\<close>.\<close>

theorem load_never_fails_witness:
  "TaskStore_load (page None accept_all []) = ([], page None accept_all []) \<and>
   TaskStore_load (page (Some Malformed_text) accept_all []) =
     ([], console_log (Failed_to_parse SyntaxError) (page (Some Malformed_text) accept_all [])) \<and>
   TaskStore_load (page (Some (Json_text (JNum 7))) accept_all []) =
     ([], page (Some (Json_text (JNum 7))) accept_all []) \<and>
   TaskStore_load (page (Some (Json_text (JArr [JNull]))) accept_all []) =
     ([], console_log (Failed_to_parse TypeError) (page (Some (Json_text (JArr [JNull]))) accept_all []))"
proof -
  have a: "stored (page None accept_all []) = None"
    by (simp add: page_def)
  have b: "stored (page (Some Malformed_text) accept_all []) = Some Malformed_text
           \<and> JSON_parse Malformed_text = Inl SyntaxError"
    by (simp add: page_def)
  have c: "stored (page (Some (Json_text (JNum 7))) accept_all []) = Some (Json_text (JNum 7))
           \<and> JSON_parse (Json_text (JNum 7)) = Inr (JNum 7) \<and> \<not> Array_isArray (JNum 7)"
    by (simp add: page_def)
  have d: "stored (page (Some (Json_text (JArr [JNull]))) accept_all []) = Some (Json_text (JArr [JNull]))
           \<and> JSON_parse (Json_text (JArr [JNull])) = Inr (JArr [JNull]) \<and> Array_isArray (JArr [JNull])
           \<and> map_items (elements (JArr [JNull])) = Inl TypeError"
    by (simp add: page_def from_item_def)
  from a load_never_fails [of "page None accept_all []"]
  have "TaskStore_load (page None accept_all []) = ([], page None accept_all [])"
    by simp
  moreover from b load_never_fails [of "page (Some Malformed_text) accept_all []" Malformed_text SyntaxError]
  have "TaskStore_load (page (Some Malformed_text) accept_all []) =
          ([], console_log (Failed_to_parse SyntaxError) (page (Some Malformed_text) accept_all []))"
    by simp
  moreover from c load_never_fails [of "page (Some (Json_text (JNum 7))) accept_all []" "Json_text (JNum 7)" _ "JNum 7"]
  have "TaskStore_load (page (Some (Json_text (JNum 7))) accept_all []) =
          ([], page (Some (Json_text (JNum 7))) accept_all [])"
    by simp
  moreover from d load_never_fails [of "page (Some (Json_text (JArr [JNull]))) accept_all []"
                                       "Json_text (JArr [JNull])" TypeError "JArr [JNull]"]
  have "TaskStore_load (page (Some (Json_text (JArr [JNull]))) accept_all []) =
          ([], console_log (Failed_to_parse TypeError) (page (Some (Json_text (JArr [JNull]))) accept_all []))"
    by simp
  ultimately show ?thesis by simp
qed

text \<open>A stored value that parses to an object, not an array: \<open>load\<close> returns the
  empty list and the console stays empty, so no diagnostic is logged.\<close>

theorem load_never_fails_counterexample:
  "stored (page (Some (Json_text (JObj []))) accept_all []) = Some (Json_text (JObj [])) \<and>
   JSON_parse (Json_text (JObj [])) = Inr (JObj []) \<and>
   \<not> Array_isArray (JObj []) \<and>
   fst (TaskStore_load (page (Some (Json_text (JObj []))) accept_all [])) = [] \<and>
   console (snd (TaskStore_load (page (Some (Json_text (JObj []))) accept_all []))) = []"
  by (simp add: TaskStore_load_def getItem_def page_def)

subsection \<open>Update\<close>

text \<open>
  C3. When the persisted collection holds no task whose id is strictly equal to the id
  of the given task, \<open>update\<close> only logs the warning: the stored value and what \<open>load\<close>
  returns afterwards are unchanged. When \<open>i\<close> is the first position whose id matches,
  the task there is replaced by the given one and the collection is handed to \<open>save\<close>,
  which stores it when the storage accepts the write.
\<close>

theorem update_by_id:
  "((\<forall>t\<in>set (loaded st). \<not> strict_eq (task_id t) (task_id task)) \<longrightarrow>
      TaskStore_update task st = console_log (Update_not_found (task_id task)) (snd (TaskStore_load st))
      \<and> stored (TaskStore_update task st) = stored st
      \<and> loaded (TaskStore_update task st) = loaded st)
   \<and> (i < length (loaded st) \<and> strict_eq (task_id (loaded st ! i)) (task_id task)
        \<and> (\<forall>j<i. \<not> strict_eq (task_id (loaded st ! j)) (task_id task)) \<longrightarrow>
      TaskStore_update task st = TaskStore_save ((loaded st)[i := task]) (snd (TaskStore_load st))
      \<and> (fits st (written ((loaded st)[i := task])) \<longrightarrow>
           stored (TaskStore_update task st) = Some (written ((loaded st)[i := task]))))"
  by (auto simp: update_missing update_first save_accepted)

text \<open>With tasks 1 and 2 persisted: an update for the id \<^verbatim>\<open>"c"\<close> changes nothing, an
  update for the id 2 replaces the second task.\<close>

theorem update_by_id_witness:
  "loaded (page (Some (written [task_A, task_B])) accept_all []) = [task_A, task_B] \<and>
   loaded (TaskStore_update task_C (page (Some (written [task_A, task_B])) accept_all [])) = [task_A, task_B] \<and>
   stored (TaskStore_update (task_B\<lparr>task_text := Some (JStr ''Walk cat'')\<rparr>)
             (page (Some (written [task_A, task_B])) accept_all []))
     = Some (written [task_A, task_B\<lparr>task_text := Some (JStr ''Walk cat'')\<rparr>])"
proof -
  let ?pg = "page (Some (written [task_A, task_B])) accept_all []"
  let ?t = "task_B\<lparr>task_text := Some (JStr ''Walk cat'')\<rparr>"
  have l: "loaded ?pg = [task_A, task_B]"
    by (simp add: loaded_page)
  have a: "\<forall>t\<in>set (loaded ?pg). \<not> strict_eq (task_id t) (task_id task_C)"
    by (simp add: l)
  have b: "1 < length (loaded ?pg) \<and> strict_eq (task_id (loaded ?pg ! 1)) (task_id ?t)
           \<and> (\<forall>j<1. \<not> strict_eq (task_id (loaded ?pg ! j)) (task_id ?t))"
    by (simp add: l)
  have c: "fits ?pg (written ((loaded ?pg)[1 := ?t]))"
    by (simp add: accept_all_def)
  from a update_by_id [of ?pg task_C 0] have "loaded (TaskStore_update task_C ?pg) = loaded ?pg"
    by blast
  then have "loaded (TaskStore_update task_C ?pg) = [task_A, task_B]"
    by (simp add: l)
  moreover from b c update_by_id [of ?pg ?t 1]
  have "stored (TaskStore_update ?t ?pg) = Some (written ((loaded ?pg)[1 := ?t]))"
    by blast
  then have "stored (TaskStore_update ?t ?pg) = Some (written [task_A, ?t])"
    by (simp add: l)
  ultimately show ?thesis using l by simp
qed

text \<open>
  C10. When the persisted collection holds several tasks with the id of the given task
  and \<open>i\<close> is the first of their positions, \<open>update\<close> hands to \<open>save\<close> the collection
  with the given task at position \<open>i\<close> and every other position, the later duplicates
  among them, as it was; when the storage accepts the write, that is the collection
  \<open>load\<close> returns afterwards.
\<close>

theorem update_first_duplicate:
  assumes "i < length (loaded st)"
    and "strict_eq (task_id (loaded st ! i)) (task_id task)"
    and "\<forall>k<i. \<not> strict_eq (task_id (loaded st ! k)) (task_id task)"
  shows "TaskStore_update task st = TaskStore_save ((loaded st)[i := task]) (snd (TaskStore_load st))
         \<and> length ((loaded st)[i := task]) = length (loaded st)
         \<and> (loaded st)[i := task] ! i = task
         \<and> (\<forall>k<length (loaded st). k \<noteq> i \<longrightarrow> (loaded st)[i := task] ! k = loaded st ! k)
         \<and> (fits st (written ((loaded st)[i := task])) \<and> task_completed task \<noteq> None \<longrightarrow>
              loaded (TaskStore_update task st) = (loaded st)[i := task])"
proof -
  have u: "TaskStore_update task st = TaskStore_save ((loaded st)[i := task]) (snd (TaskStore_load st))"
    using assms by (rule update_first)
  have "map rebuilt ((loaded st)[i := task]) = (loaded st)[i := task]" if "task_completed task \<noteq> None"
    using that by (simp add: map_update loaded_rebuilt rebuilt_id)
  then have "loaded (TaskStore_update task st) = (loaded st)[i := task]"
    if "fits st (written ((loaded st)[i := task]))" "task_completed task \<noteq> None"
    using that by (simp add: u loaded_save)
  with u assms(1) show ?thesis by simp
qed

text \<open>Three persisted tasks, the first and the third with the id 1: an update for the
  id 1 replaces the first and keeps the third.\<close>

theorem update_first_duplicate_witness:
  "loaded (page (Some (written [task_A, task_B, task_A])) accept_all []) = [task_A, task_B, task_A] \<and>
   loaded (TaskStore_update (task_A\<lparr>task_text := Some (JStr ''Buy bread'')\<rparr>)
             (page (Some (written [task_A, task_B, task_A])) accept_all []))
     = [task_A\<lparr>task_text := Some (JStr ''Buy bread'')\<rparr>, task_B, task_A]"
proof -
  let ?pg = "page (Some (written [task_A, task_B, task_A])) accept_all []"
  let ?t = "task_A\<lparr>task_text := Some (JStr ''Buy bread'')\<rparr>"
  have l: "loaded ?pg = [task_A, task_B, task_A]"
    by (simp add: loaded_page)
  have a: "0 < length (loaded ?pg)"
    by (simp add: l)
  have b: "strict_eq (task_id (loaded ?pg ! 0)) (task_id ?t)"
    by (simp add: l)
  have c: "\<forall>k<0. \<not> strict_eq (task_id (loaded ?pg ! k)) (task_id ?t)"
    by simp
  have d: "fits ?pg (written ((loaded ?pg)[0 := ?t])) \<and> task_completed ?t \<noteq> None"
    by (simp add: accept_all_def task_A_def)
  from update_first_duplicate [OF a b c] d
  have "loaded (TaskStore_update ?t ?pg) = (loaded ?pg)[0 := ?t]"
    by blast
  then show ?thesis by (simp add: l)
qed

subsection \<open>Delete\<close>

text \<open>
  C4, as the code has it. When some persisted task has an id strictly equal to the given
  one, \<open>delete\<close> hands to \<open>save\<close> the persisted sequence without every such task, the
  others in their order; \<open>load\<close> afterwards returns that sequence when the storage
  accepts the write, and the unchanged collection when \<^verbatim>\<open>setItem\<close> throws. When no task
  matches, \<open>delete\<close> only logs the warning and the persisted state is unchanged.
\<close>

theorem delete_by_id:
  "((\<exists>t\<in>set (loaded st). strict_eq (task_id t) i) \<longrightarrow>
      TaskStore_delete i st =
        TaskStore_save (filter (\<lambda>t. \<not> strict_eq (task_id t) i) (loaded st)) (snd (TaskStore_load st))
      \<and> loaded (TaskStore_delete i st) =
          (if fits st (written (filter (\<lambda>t. \<not> strict_eq (task_id t) i) (loaded st)))
           then filter (\<lambda>t. \<not> strict_eq (task_id t) i) (loaded st) else loaded st))
   \<and> ((\<forall>t\<in>set (loaded st). \<not> strict_eq (task_id t) i) \<longrightarrow>
      TaskStore_delete i st = console_log (Delete_not_found i) (snd (TaskStore_load st))
      \<and> stored (TaskStore_delete i st) = stored st
      \<and> loaded (TaskStore_delete i st) = loaded st)"
  by (auto simp: delete_unfold length_filter_same loaded_save map_rebuilt_filter)

text \<open>With the tasks 1, 2 and 1 again persisted, deleting the id 1 leaves the task 2;
  deleting the id 1 once more changes nothing.\<close>

theorem delete_by_id_witness:
  "loaded (page (Some (written [task_A, task_B, task_A])) accept_all []) = [task_A, task_B, task_A] \<and>
   loaded (TaskStore_delete (Some (JNum 1)) (page (Some (written [task_A, task_B, task_A])) accept_all []))
     = [task_B] \<and>
   loaded (page (Some (written [task_B])) accept_all []) = [task_B] \<and>
   loaded (TaskStore_delete (Some (JNum 1)) (page (Some (written [task_B])) accept_all [])) = [task_B]"
proof -
  let ?pg = "page (Some (written [task_A, task_B, task_A])) accept_all []"
  let ?pg' = "page (Some (written [task_B])) accept_all []"
  have l: "loaded ?pg = [task_A, task_B, task_A]" and l': "loaded ?pg' = [task_B]"
    by (simp_all add: loaded_page)
  have a: "\<exists>t\<in>set (loaded ?pg). strict_eq (task_id t) (Some (JNum 1))"
    by (simp add: l)
  have b: "fits ?pg (written (filter (\<lambda>t. \<not> strict_eq (task_id t) (Some (JNum 1))) (loaded ?pg)))"
    by (simp add: accept_all_def)
  have c: "\<forall>t\<in>set (loaded ?pg'). \<not> strict_eq (task_id t) (Some (JNum 1))"
    by (simp add: l')
  from a delete_by_id [of ?pg "Some (JNum 1)"]
  have "loaded (TaskStore_delete (Some (JNum 1)) ?pg) =
          (if fits ?pg (written (filter (\<lambda>t. \<not> strict_eq (task_id t) (Some (JNum 1))) (loaded ?pg)))
           then filter (\<lambda>t. \<not> strict_eq (task_id t) (Some (JNum 1))) (loaded ?pg) else loaded ?pg)"
    by blast
  with b have "loaded (TaskStore_delete (Some (JNum 1)) ?pg) =
          filter (\<lambda>t. \<not> strict_eq (task_id t) (Some (JNum 1))) (loaded ?pg)"
    by (simp only: if_True)
  then have "loaded (TaskStore_delete (Some (JNum 1)) ?pg) = [task_B]"
    by (simp add: l)
  moreover from c delete_by_id [of ?pg' "Some (JNum 1)"]
  have "loaded (TaskStore_delete (Some (JNum 1)) ?pg') = loaded ?pg'"
    by blast
  ultimately show ?thesis using l l' by simp
qed

text \<open>With the quota used up and the tasks 1 and 2 persisted, \<open>load\<close> after deleting
  the id 1 still returns both tasks, not the task 2 alone.\<close>

theorem delete_by_id_counterexample:
  "loaded (page (Some (written [task_A, task_B])) accept_none []) = [task_A, task_B] \<and>
   filter (\<lambda>t. \<not> strict_eq (task_id t) (Some (JNum 1))) [task_A, task_B] = [task_B] \<and>
   loaded (TaskStore_delete (Some (JNum 1)) (page (Some (written [task_A, task_B])) accept_none []))
     = [task_A, task_B] \<and>
   loaded (TaskStore_delete (Some (JNum 1)) (page (Some (written [task_A, task_B])) accept_none []))
     \<noteq> [task_B]"
proof -
  let ?pg = "page (Some (written [task_A, task_B])) accept_none []"
  have l: "loaded ?pg = [task_A, task_B]"
    by (simp add: loaded_page)
  have "TaskStore_delete (Some (JNum 1)) ?pg = TaskStore_save [task_B] (snd (TaskStore_load ?pg))"
    by (simp add: delete_unfold l)
  also have "\<dots> = console_log (Failed_to_save QuotaExceededError) (snd (TaskStore_load ?pg))"
    by (simp add: TaskStore_save_def setItem_def accept_none_def)
  finally have "loaded (TaskStore_delete (Some (JNum 1)) ?pg) = [task_A, task_B]"
    by (simp add: l)
  with l show ?thesis by simp
qed

subsection \<open>Reorder\<close>

text \<open>
  With integer indices \<open>reorder\<close> does what its guard intends. With \<open>n\<close> persisted
  tasks and both indices in \<open>0 \<le> index < n\<close>, it takes the element at \<open>oldIndex\<close> out
  and puts it in at \<open>newIndex\<close>: the collection handed to \<open>save\<close> has the same length,
  holds the moved element at \<open>newIndex\<close>, and without that position it is the old
  collection without position \<open>oldIndex\<close> (a move of one element, not a swap); it is what
  \<open>load\<close> returns afterwards when the storage accepts the write. With an integer index
  outside the bounds \<open>reorder\<close> only logs the warning and the persisted state is
  unchanged.
\<close>

lemma reorder_integer_indices:
  "(0 \<le> i \<and> i < int (length (loaded st)) \<and> 0 \<le> j \<and> j < int (length (loaded st)) \<longrightarrow>
      (let rest = take (nat i) (loaded st) @ drop (Suc (nat i)) (loaded st);
           ys = take (nat j) rest @ loaded st ! nat i # drop (nat j) rest
       in TaskStore_reorder (Some (Finite i)) (Some (Finite j)) st =
            Inr (TaskStore_save ys (snd (TaskStore_load st)))
          \<and> length ys = length (loaded st)
          \<and> ys ! nat j = loaded st ! nat i
          \<and> take (nat j) ys @ drop (Suc (nat j)) ys = rest
          \<and> (fits st (written ys) \<longrightarrow> loaded (TaskStore_save ys (snd (TaskStore_load st))) = ys)))
   \<and> (\<not> (0 \<le> i \<and> i < int (length (loaded st)) \<and> 0 \<le> j \<and> j < int (length (loaded st))) \<longrightarrow>
      TaskStore_reorder (Some (Finite i)) (Some (Finite j)) st =
        Inr (console_log (Invalid_reorder (Some (Finite i)) (Some (Finite j))) (snd (TaskStore_load st))))"
proof (intro conjI impI)
  assume b: "0 \<le> i \<and> i < int (length (loaded st)) \<and> 0 \<le> j \<and> j < int (length (loaded st))"
  define rest where "rest = take (nat i) (loaded st) @ drop (Suc (nat i)) (loaded st)"
  define ys where "ys = take (nat j) rest @ loaded st ! nat i # drop (nat j) rest"
  from b have i: "nat i < length (loaded st)" and j: "nat j < length (loaded st)"
    by (auto simp: nat_less_iff)
  from i have len: "Suc (length rest) = length (loaded st)"
    unfolding rest_def by (rule remove_at_length)
  with j have jr: "nat j \<le> length rest"
    by simp
  have r: "TaskStore_reorder (Some (Finite i)) (Some (Finite j)) st =
             Inr (TaskStore_save ys (snd (TaskStore_load st)))"
    using b unfolding ys_def rest_def by (intro reorder_in_bounds) simp_all
  have "set rest \<subseteq> set (loaded st)"
    unfolding rest_def by (auto dest: in_set_takeD in_set_dropD)
  with i have "set ys \<subseteq> set (loaded st)"
    unfolding ys_def by (auto dest: in_set_takeD in_set_dropD)
  then have "map rebuilt ys = ys"
    by (intro map_rebuilt_id) (auto dest: load_completed)
  then have p: "loaded (TaskStore_save ys (snd (TaskStore_load st))) = ys" if "fits st (written ys)"
    using that by (simp add: loaded_save)
  have "length ys = length (loaded st)" "ys ! nat j = loaded st ! nat i"
    "take (nat j) ys @ drop (Suc (nat j)) ys = rest"
    unfolding ys_def using insert_at_shape [OF jr] len by simp_all
  with r p show
    "let rest = take (nat i) (loaded st) @ drop (Suc (nat i)) (loaded st);
         ys = take (nat j) rest @ loaded st ! nat i # drop (nat j) rest
     in TaskStore_reorder (Some (Finite i)) (Some (Finite j)) st =
          Inr (TaskStore_save ys (snd (TaskStore_load st)))
        \<and> length ys = length (loaded st)
        \<and> ys ! nat j = loaded st ! nat i
        \<and> take (nat j) ys @ drop (Suc (nat j)) ys = rest
        \<and> (fits st (written ys) \<longrightarrow> loaded (TaskStore_save ys (snd (TaskStore_load st))) = ys)"
    unfolding Let_def ys_def [symmetric] rest_def [symmetric] by simp
next
  assume "\<not> (0 \<le> i \<and> i < int (length (loaded st)) \<and> 0 \<le> j \<and> j < int (length (loaded st)))"
  then show "TaskStore_reorder (Some (Finite i)) (Some (Finite j)) st =
        Inr (console_log (Invalid_reorder (Some (Finite i)) (Some (Finite j))) (snd (TaskStore_load st)))"
    by (rule reorder_out_of_bounds)
qed

text \<open>From the persisted tasks A, B, C: \<open>reorder 0 2\<close> persists B, C, A, and
  \<open>reorder 5 0\<close> only logs the warning.\<close>

lemma reorder_integer_examples:
  "TaskStore_reorder (Some (Finite 0)) (Some (Finite 2))
       (page (Some (written [task_A, task_B, task_C])) accept_all [])
     = Inr ((page (Some (written [task_A, task_B, task_C])) accept_all [])
              \<lparr>stored := Some (written [task_B, task_C, task_A])\<rparr>) \<and>
   TaskStore_reorder (Some (Finite 5)) (Some (Finite 0))
       (page (Some (written [task_A, task_B, task_C])) accept_all [])
     = Inr (console_log (Invalid_reorder (Some (Finite 5)) (Some (Finite 0)))
              (page (Some (written [task_A, task_B, task_C])) accept_all []))"
proof -
  let ?pg = "page (Some (written [task_A, task_B, task_C])) accept_all []"
  have l: "TaskStore_load ?pg = ([task_A, task_B, task_C], ?pg)"
    by (simp add: load_written)
  have a: "(0::int) \<le> 0 \<and> 0 < int (length (loaded ?pg)) \<and> (0::int) \<le> 2 \<and> 2 < int (length (loaded ?pg))"
    by (simp add: l)
  have b: "\<not> ((0::int) \<le> 5 \<and> 5 < int (length (loaded ?pg)) \<and> (0::int) \<le> 0 \<and> 0 < int (length (loaded ?pg)))"
    by (simp add: l)
  note m = reorder_integer_indices [of 0 ?pg 2, THEN conjunct1, rule_format, OF a, unfolded Let_def]
  from m [THEN conjunct1]
  have "TaskStore_reorder (Some (Finite 0)) (Some (Finite 2)) ?pg =
          Inr (?pg\<lparr>stored := Some (written [task_B, task_C, task_A])\<rparr>)"
    by (simp add: l save_accepted accept_all_def)
  moreover from reorder_integer_indices [of 5 ?pg 0, THEN conjunct2, rule_format, OF b]
  have "TaskStore_reorder (Some (Finite 5)) (Some (Finite 0)) ?pg =
          Inr (console_log (Invalid_reorder (Some (Finite 5)) (Some (Finite 0))) ?pg)"
    by (simp add: l)
  ultimately show ?thesis by simp
qed

text \<open>
  C5 at the index \<^verbatim>\<open>NaN\<close>. Every comparison of the guard is false for \<^verbatim>\<open>NaN\<close>, so an
  index that is not within \<open>0 \<le> index < n\<close> passes it. With A, B, C persisted,
  \<open>reorder NaN 2\<close> takes the element at position 0 (where \<^verbatim>\<open>splice\<close> starts for \<^verbatim>\<open>NaN\<close>),
  stores B, C, A and logs nothing, where a warning and no change is expected. With
  nothing persisted, \<open>reorder NaN NaN\<close> removes nothing, inserts \<^verbatim>\<open>undefined\<close> and
  throws a TypeError from \<open>save\<close>, where no exception is expected.
\<close>

theorem reorder_nan_index:
  "TaskStore_reorder (Some NaN) (Some (Finite 2))
       (page (Some (written [task_A, task_B, task_C])) accept_all [])
     = Inr ((page (Some (written [task_A, task_B, task_C])) accept_all [])
              \<lparr>stored := Some (written [task_B, task_C, task_A])\<rparr>) \<and>
   TaskStore_reorder (Some NaN) (Some (Finite 2))
       (page (Some (written [task_A, task_B, task_C])) accept_all [])
     \<noteq> Inr (console_log (Invalid_reorder (Some NaN) (Some (Finite 2)))
              (page (Some (written [task_A, task_B, task_C])) accept_all [])) \<and>
   TaskStore_reorder (Some NaN) (Some NaN) (page None accept_all [])
     = Inl (TypeError, page None accept_all [])"
proof -
  let ?pg = "page (Some (written [task_A, task_B, task_C])) accept_all []"
  have l: "TaskStore_load ?pg = ([task_A, task_B, task_C], ?pg)"
    by (simp add: load_written)
  have e: "TaskStore_load (page None accept_all []) = ([], page None accept_all [])"
    by (simp add: TaskStore_load_def getItem_def)
  have r: "TaskStore_reorder (Some NaN) (Some (Finite 2)) ?pg =
             Inr (?pg\<lparr>stored := Some (written [task_B, task_C, task_A])\<rparr>)"
    by (simp add: reorder_unfold l splice_array_def splice_start_def save_array_def save_accepted accept_all_def)
  have "stored (?pg\<lparr>stored := Some (written [task_B, task_C, task_A])\<rparr>)
          \<noteq> stored (console_log (Invalid_reorder (Some NaN) (Some (Finite 2))) ?pg)"
    by (simp add: written_def JSON_stringify_def serialize_def JSON_object_def task_A_def task_B_def)
  then have n: "?pg\<lparr>stored := Some (written [task_B, task_C, task_A])\<rparr>
          \<noteq> console_log (Invalid_reorder (Some NaN) (Some (Finite 2))) ?pg"
    by metis
  have t: "TaskStore_reorder (Some NaN) (Some NaN) (page None accept_all []) =
             Inl (TypeError, page None accept_all [])"
    by (simp add: reorder_unfold e splice_array_def splice_start_def save_array_def)
  from r n t show ?thesis by simp
qed

subsection \<open>Add\<close>

text \<open>
  C6, as the code has it. \<open>add\<close> hands to \<open>save\<close> the persisted collection with the
  given task appended, whatever ids the collection holds. For a valid task, \<open>load\<close>
  afterwards returns the old collection followed by the task when the storage accepts
  the write (the task alone when nothing was persisted, both entries when the id was
  there already), and the old collection when \<^verbatim>\<open>setItem\<close> throws.
\<close>

theorem add_appends:
  "TaskStore_add task st = TaskStore_save (loaded st @ [task]) (snd (TaskStore_load st))
   \<and> (valid_task task \<longrightarrow>
        loaded (TaskStore_add task st) =
          (if fits st (written (loaded st @ [task])) then loaded st @ [task] else loaded st))"
  by (auto simp: TaskStore_add_def Let_def case_prod_unfold loaded_save loaded_rebuilt rebuilt_id
        valid_task_completed)

text \<open>Adding task 1 to an empty storage gives that task alone; adding it again gives
  two entries with the id 1.\<close>

theorem add_appends_witness:
  "valid_task task_A \<and>
   loaded (page None accept_all []) = [] \<and>
   loaded (TaskStore_add task_A (page None accept_all [])) = [task_A] \<and>
   loaded (TaskStore_add task_A (page (Some (written [task_A])) accept_all [])) = [task_A, task_A]"
proof -
  let ?pg = "page None accept_all []"
  let ?pg' = "page (Some (written [task_A])) accept_all []"
  have v: "valid_task task_A"
    by (simp add: valid_task_def task_A_def)
  have l: "loaded ?pg = []"
    by (simp add: TaskStore_load_def getItem_def)
  have l': "loaded ?pg' = [task_A]"
    by (simp add: loaded_page)
  from add_appends [of task_A ?pg, THEN conjunct2, rule_format, OF v]
  have "loaded (TaskStore_add task_A ?pg) = [task_A]"
    by (simp add: l accept_all_def)
  moreover from add_appends [of task_A ?pg', THEN conjunct2, rule_format, OF v]
  have "loaded (TaskStore_add task_A ?pg') = [task_A, task_A]"
    by (simp add: l' accept_all_def)
  ultimately show ?thesis using v l by simp
qed

text \<open>With the quota used up and nothing persisted, \<open>load\<close> after adding a valid task
  returns the empty list, not the task.\<close>

theorem add_appends_counterexample:
  "valid_task task_A \<and>
   loaded (page None accept_none []) = [] \<and>
   loaded (TaskStore_add task_A (page None accept_none [])) = [] \<and>
   loaded (TaskStore_add task_A (page None accept_none [])) \<noteq> [task_A]"
proof -
  let ?pg = "page None accept_none []"
  have l: "TaskStore_load ?pg = ([], ?pg)"
    by (simp add: TaskStore_load_def getItem_def)
  then have "TaskStore_add task_A ?pg = TaskStore_save [task_A] ?pg"
    by (simp add: TaskStore_add_def)
  also have "\<dots> = console_log (Failed_to_save QuotaExceededError) ?pg"
    by (simp add: TaskStore_save_def setItem_def accept_none_def)
  finally have "loaded (TaskStore_add task_A ?pg) = []"
    by (simp add: l)
  moreover have "valid_task task_A"
    by (simp add: valid_task_def task_A_def)
  ultimately show ?thesis using l by simp
qed

subsection \<open>Strict and string-normalized comparison of ids\<close>

lemma strict_eq_string: "strict_eq v (Some (JStr s)) = (v = Some (JStr s))"
proof (cases v)
  case None
  then show ?thesis by simp
next
  case (Some j)
  then show ?thesis by (cases j) auto
qed

lemma find_task_found: "\<exists>t\<in>set ts. String_of (task_id t) = i \<Longrightarrow> find_task i ts \<noteq> None"
  by (induction ts) auto

lemma String_examples [simp]:
  "String_int 1 = ''1''" "String_of (Some (JNum 1)) = ''1''" "String_of (Some (JNum 2)) = ''2''"
  by code_simp+

text \<open>
  C9. When the persisted collection holds a task whose id is the number \<open>n\<close> and none
  whose id is the string form of \<open>n\<close>, \<open>delete\<close> with the string form removes nothing
  (it logs the warning, and the persisted state is unchanged) and \<open>update\<close> with a task
  that carries the string form takes the not-found branch; the handler's lookup, which
  compares \<^verbatim>\<open>String(t.id)\<close>, does find a task for the same string.
\<close>

theorem strict_id_comparison:
  assumes "\<exists>t\<in>set (loaded st). task_id t = Some (JNum n)"
    and "\<forall>t\<in>set (loaded st). task_id t \<noteq> Some (JStr (String_int n))"
    and "task_id task = Some (JStr (String_int n))"
  shows "TaskStore_delete (Some (JStr (String_int n))) st =
           console_log (Delete_not_found (Some (JStr (String_int n)))) (snd (TaskStore_load st))
         \<and> stored (TaskStore_delete (Some (JStr (String_int n))) st) = stored st
         \<and> loaded (TaskStore_delete (Some (JStr (String_int n))) st) = loaded st
         \<and> TaskStore_update task st = console_log (Update_not_found (task_id task)) (snd (TaskStore_load st))
         \<and> find_task (String_of (Some (JStr (String_int n)))) (loaded st) \<noteq> None"
proof -
  from assms(2) have n: "\<forall>t\<in>set (loaded st). \<not> strict_eq (task_id t) (Some (JStr (String_int n)))"
    by (simp add: strict_eq_string)
  then have d: "TaskStore_delete (Some (JStr (String_int n))) st =
                  console_log (Delete_not_found (Some (JStr (String_int n)))) (snd (TaskStore_load st))"
    by (simp add: delete_unfold length_filter_same)
  from n assms(3) have u: "TaskStore_update task st =
                  console_log (Update_not_found (task_id task)) (snd (TaskStore_load st))"
    by (intro update_missing) simp
  from assms(1) obtain t where "t \<in> set (loaded st)" "task_id t = Some (JNum n)"
    by blast
  moreover have "String_of (Some (JNum n)) = String_of (Some (JStr (String_int n)))"
    by (simp add: String_of_def)
  ultimately have "\<exists>t\<in>set (loaded st). String_of (task_id t) = String_of (Some (JStr (String_int n)))"
    by metis
  then have "find_task (String_of (Some (JStr (String_int n)))) (loaded st) \<noteq> None"
    by (rule find_task_found)
  with d u show ?thesis by simp
qed

text \<open>With the tasks 1 and 2 persisted (number ids), deleting \<^verbatim>\<open>"1"\<close> and updating a
  task with the id \<^verbatim>\<open>"1"\<close> change nothing, while the lookup for \<^verbatim>\<open>"1"\<close> finds the first
  task.\<close>

theorem strict_id_comparison_witness:
  "loaded (page (Some (written [task_A, task_B])) accept_all []) = [task_A, task_B] \<and>
   loaded (TaskStore_delete (Some (JStr ''1'')) (page (Some (written [task_A, task_B])) accept_all []))
     = [task_A, task_B] \<and>
   loaded (TaskStore_update (task_A\<lparr>task_id := Some (JStr ''1'')\<rparr>)
             (page (Some (written [task_A, task_B])) accept_all []))
     = [task_A, task_B] \<and>
   find_task ''1'' [task_A, task_B] = Some 0"
proof -
  let ?pg = "page (Some (written [task_A, task_B])) accept_all []"
  let ?t = "task_A\<lparr>task_id := Some (JStr ''1'')\<rparr>"
  have l: "loaded ?pg = [task_A, task_B]"
    by (simp add: loaded_page)
  have a: "\<exists>t\<in>set (loaded ?pg). task_id t = Some (JNum 1)"
    by (simp add: l)
  have b: "\<forall>t\<in>set (loaded ?pg). task_id t \<noteq> Some (JStr (String_int 1))"
    by (simp add: l)
  have c: "task_id ?t = Some (JStr (String_int 1))"
    by simp
  note s = strict_id_comparison [OF a b c]
  from s have "loaded (TaskStore_delete (Some (JStr (String_int 1))) ?pg) = loaded ?pg"
    by blast
  then have "loaded (TaskStore_delete (Some (JStr ''1'')) ?pg) = [task_A, task_B]"
    by (simp add: l)
  moreover from s have "TaskStore_update ?t ?pg = console_log (Update_not_found (task_id ?t)) (snd (TaskStore_load ?pg))"
    by blast
  then have "loaded (TaskStore_update ?t ?pg) = [task_A, task_B]"
    by (simp add: l)
  moreover have "find_task ''1'' [task_A, task_B] = Some 0"
    by simp
  ultimately show ?thesis using l by simp
qed

subsection \<open>The visible subset\<close>

lemma starts_with_iff: "starts_with s t = (\<exists>post. s = t @ post)"
  by (induction s t rule: starts_with.induct) auto

lemma includes_str_iff: "includes_str s t = (\<exists>pre post. s = pre @ t @ post)"
proof (induction s)
  case Nil
  then show ?case by simp
next
  case (Cons c s)
  show ?case
  proof
    assume "includes_str (c # s) t"
    then consider "starts_with (c # s) t" | "includes_str s t" by auto
    then show "\<exists>pre post. c # s = pre @ t @ post"
    proof cases
      case 1
      then obtain post where "c # s = t @ post" by (auto simp: starts_with_iff)
      then have "c # s = [] @ t @ post" by simp
      then show ?thesis by blast
    next
      case 2
      with Cons obtain pre post where "s = pre @ t @ post" by auto
      then have "c # s = (c # pre) @ t @ post" by simp
      then show ?thesis by blast
    qed
  next
    assume "\<exists>pre post. c # s = pre @ t @ post"
    then obtain pre post where e: "c # s = pre @ t @ post" by blast
    show "includes_str (c # s) t"
    proof (cases pre)
      case Nil
      with e have "starts_with (c # s) t" by (auto simp: starts_with_iff)
      then show ?thesis by simp
    next
      case (Cons d pre')
      with e have "s = pre' @ t @ post" by simp
      with Cons.IH have "includes_str s t" by blast
      then show ?thesis by simp
    qed
  qed
qed

lemma includes_str_Nil [simp]: "includes_str s [] = True"
  by (cases s) simp_all

text \<open>The code's \<open>lower_char\<close> identifies exactly the characters that the table of
  letters calls the same up to case.\<close>

lemma spec_case_pairs_codes:
  "map (map_prod of_char of_char) spec_case_pairs =
     map (\<lambda>n::nat. (n, n + 32)) ([65..<91] @ [192..<215] @ [216..<223])"
  unfolding spec_case_pairs_def by (simp add: upt_rec)

lemma in_shift_image: "((m :: nat, k) \<in> (\<lambda>n. (n, n + 32)) ` S) = (m \<in> S \<and> k = m + 32)"
  by auto

lemma in_code_pairs:
  "((m :: nat, k) \<in> set (map (\<lambda>n::nat. (n, n + 32)) ([65..<91] @ [192..<215] @ [216..<223]))) =
     (((65 \<le> m \<and> m \<le> 90) \<or> (192 \<le> m \<and> m \<le> 222 \<and> m \<noteq> 215)) \<and> k = m + 32)"
proof -
  have "(m \<in> set ([65..<91] @ [192..<215] @ [216..<223])) =
          ((65 \<le> m \<and> m \<le> 90) \<or> (192 \<le> m \<and> m \<le> 222 \<and> m \<noteq> 215))"
    unfolding set_append set_upt Un_iff atLeastLessThan_iff by arith
  then show ?thesis
    unfolding set_map in_shift_image by simp
qed

lemma in_case_pairs:
  "((a, b) \<in> set spec_case_pairs) =
     (((65 \<le> (of_char a :: nat) \<and> (of_char a :: nat) \<le> 90) \<or>
       (192 \<le> (of_char a :: nat) \<and> (of_char a :: nat) \<le> 222 \<and> (of_char a :: nat) \<noteq> 215))
      \<and> (of_char b :: nat) = of_char a + 32)"
proof -
  have "inj (map_prod (of_char :: char \<Rightarrow> nat) (of_char :: char \<Rightarrow> nat))"
    by (intro prod.inj_map inj_of_char)
  then have "((a, b) \<in> set spec_case_pairs) =
      (map_prod of_char of_char (a, b) \<in> map_prod (of_char :: char \<Rightarrow> nat) (of_char :: char \<Rightarrow> nat) ` set spec_case_pairs)"
    by (simp only: inj_image_mem_iff)
  also have "\<dots> = ((of_char a :: nat, of_char b :: nat) \<in>
      set (map (\<lambda>n::nat. (n, n + 32)) ([65..<91] @ [192..<215] @ [216..<223])))"
    by (simp only: spec_case_pairs_codes [symmetric] set_map map_prod_simp)
  finally show ?thesis
    by (simp only: in_code_pairs)
qed

lemma char_of_eq_code: "n < 256 \<Longrightarrow> (char_of n = z) = ((of_char z :: nat) = n)"
  by (metis char_of_char mod_less of_char_of)

lemma lower_char_eq_iff: "(lower_char x = lower_char y) = spec_same_letter x y"
proof -
  define a b where "a = (of_char x :: nat)" and "b = (of_char y :: nat)"
  define ua ub where "ua = ((65 \<le> a \<and> a \<le> 90) \<or> (192 \<le> a \<and> a \<le> 222 \<and> a \<noteq> 215))"
    and "ub = ((65 \<le> b \<and> b \<le> 90) \<or> (192 \<le> b \<and> b \<le> 222 \<and> b \<noteq> 215))"
  have lx: "lower_char x = (if ua then char_of (a + 32) else x)"
    and ly: "lower_char y = (if ub then char_of (b + 32) else y)"
    by (simp_all add: lower_char_def Let_def a_def b_def ua_def ub_def)
  have r: "spec_same_letter x y = (a = b \<or> (ua \<and> b = a + 32) \<or> (ub \<and> a = b + 32))"
    unfolding spec_same_letter_def in_case_pairs a_def b_def ua_def ub_def by simp
  show ?thesis
  proof (cases ua)
    case True
    then have a: "a + 32 < 256" by (simp add: ua_def) arith
    show ?thesis
    proof (cases ub)
      case True
      then have b: "b + 32 < 256" by (simp add: ub_def) arith
      from a b have "(char_of (a + 32) = char_of (b + 32)) = (a = b)"
        by simp
      moreover from \<open>ua\<close> \<open>ub\<close> have "(a = b \<or> (ua \<and> b = a + 32) \<or> (ub \<and> a = b + 32)) = (a = b)"
        unfolding ua_def ub_def by arith
      ultimately show ?thesis
        using \<open>ua\<close> \<open>ub\<close> by (simp only: lx ly r if_True)
    next
      case False
      have "(char_of (a + 32) = y) = (b = a + 32)"
        using char_of_eq_code [OF a, of y] by (auto simp: b_def)
      moreover from \<open>ua\<close> \<open>\<not> ub\<close> have "(a = b \<or> (ua \<and> b = a + 32) \<or> (ub \<and> a = b + 32)) = (b = a + 32)"
        unfolding ua_def ub_def by arith
      ultimately show ?thesis
        using \<open>ua\<close> \<open>\<not> ub\<close> by (simp only: lx ly r if_True if_False)
    qed
  next
    case False
    show ?thesis
    proof (cases ub)
      case True
      then have b: "b + 32 < 256" by (simp add: ub_def) arith
      have "(x = char_of (b + 32)) = (a = b + 32)"
        using char_of_eq_code [OF b, of x] by (auto simp: a_def)
      moreover from \<open>\<not> ua\<close> \<open>ub\<close> have "(a = b \<or> (ua \<and> b = a + 32) \<or> (ub \<and> a = b + 32)) = (a = b + 32)"
        unfolding ua_def ub_def by arith
      ultimately show ?thesis
        using \<open>\<not> ua\<close> \<open>ub\<close> by (simp only: lx ly r if_True if_False)
    next
      case False
      have "(x = y) = (a = b)"
        by (simp add: a_def b_def)
      with \<open>\<not> ua\<close> \<open>\<not> ub\<close> show ?thesis
        by (simp only: lx ly r if_False) simp
    qed
  qed
qed

lemma same_ignoring_case_iff: "spec_same_ignoring_case a b = (toLowerCase a = toLowerCase b)"
  unfolding spec_same_ignoring_case_def toLowerCase_def
  by (induction a arbitrary: b) (auto simp: list_all2_Cons1 map_eq_Cons_conv lower_char_eq_iff)

text \<open>The table at work, without the code: "MILK" and "milk" are the same up to case,
  "MILK" and "mill" are not.\<close>

lemma same_ignoring_case_examples:
  "spec_same_ignoring_case ''MILK'' ''milk''" "\<not> spec_same_ignoring_case ''MILK'' ''mill''"
  by (simp_all add: spec_same_ignoring_case_def spec_same_letter_def in_case_pairs)

lemma search_match_iff: "spec_search_match q txt = includes_str (toLowerCase txt) (toLowerCase q)"
proof
  assume "spec_search_match q txt"
  then obtain pre mid post where "txt = pre @ mid @ post" "toLowerCase mid = toLowerCase q"
    by (auto simp: spec_search_match_def same_ignoring_case_iff)
  then have "toLowerCase txt = toLowerCase pre @ toLowerCase q @ toLowerCase post"
    by (simp add: toLowerCase_def)
  then show "includes_str (toLowerCase txt) (toLowerCase q)"
    unfolding includes_str_iff by blast
next
  assume "includes_str (toLowerCase txt) (toLowerCase q)"
  then obtain a b where "map lower_char txt = a @ map lower_char q @ b"
    unfolding includes_str_iff toLowerCase_def by blast
  then obtain pre rest where p: "txt = pre @ rest" "map lower_char q @ b = map lower_char rest"
    by (auto simp: map_eq_append_conv)
  then obtain mid post where "rest = mid @ post" "map lower_char mid = map lower_char q"
    by (auto simp: append_eq_map_conv)
  with p show "spec_search_match q txt"
    by (auto simp: spec_search_match_def same_ignoring_case_iff toLowerCase_def)
qed

lemma filter_name_predicate:
  "is_boolean (task_completed t) \<Longrightarrow> matchesFilter (filter_name f) t = spec_filter_predicate f t"
  by (cases f; cases "task_completed t" rule: is_boolean.cases) (auto simp: matchesFilter_def)

lemma matchesSearch_valid:
  "is_string (task_text t) \<Longrightarrow> matchesSearch q t = Inr (spec_search_match q (the_text t))"
  by (cases "task_text t" rule: is_string.cases) (auto simp: matchesSearch_def search_match_iff the_text_def)

lemma filter_tasks_valid:
  "\<forall>t\<in>set ts. valid_task t \<Longrightarrow>
     filter_tasks (filter_name f) q ts =
       Inr (filter (\<lambda>t. spec_filter_predicate f t \<and> spec_search_match q (the_text t)) ts)"
  by (induction ts) (auto simp: valid_task_def matchesSearch_valid filter_name_predicate)

lemma example_fields [simp]:
  "task_text task_A = Some (JStr ''Buy milk'')" "task_text task_B = Some (JStr ''Walk dog'')"
  "task_completed task_A = Some (JBool False)" "task_completed task_B = Some (JBool True)"
  by (simp_all add: task_A_def task_B_def)

lemma valid_examples [simp]: "valid_task task_A" "valid_task task_B" "valid_task task_C"
  by (simp_all add: valid_task_def task_A_def task_B_def task_C_def)

lemma example_search:
  "spec_search_match ''milk'' ''Buy milk''" "\<not> spec_search_match ''milk'' ''Walk dog''"
  "\<not> spec_search_match ''dog'' ''Buy milk''" "spec_search_match ''dog'' ''Walk dog''"
  "spec_search_match [] ''Buy milk''" "spec_search_match [] ''Walk dog''"
  "spec_search_match ''MILK'' ''Buy milk''" "\<not> spec_search_match ''MILK'' ''Walk dog''"
  "\<not> spec_search_match ''wALK D'' ''Buy milk''" "spec_search_match ''wALK D'' ''Walk dog''"
  unfolding search_match_iff by code_simp+

text \<open>By the table alone: "MILK" matches the text "Buy milk" through its substring
  "milk".\<close>

lemma search_match_by_table: "spec_search_match ''MILK'' ''Buy milk''"
proof -
  have "''Buy milk'' = ''Buy '' @ ''milk'' @ [] \<and> spec_same_ignoring_case ''milk'' ''MILK''"
    by (simp add: spec_same_ignoring_case_def spec_same_letter_def spec_case_pairs_def)
  then show ?thesis
    unfolding spec_search_match_def by blast
qed

text \<open>
  C7. When the page has the list element and the tasks in memory are valid,
  \<open>renderTasks\<close> with one of the three filters and a search term draws one row for each
  task, in the collection's order, that satisfies the filter predicate (all: every
  task; active: completed is false; completed: completed is true) and whose text has a
  substring equal to the search term up to case; the empty search term matches every
  text.
\<close>

theorem render_visible_subset:
  assumes "listEl st \<noteq> None" and "\<forall>t\<in>set (tasks st). valid_task t"
  shows "renderTasks (Some (filter_name f)) (Some q) st =
           Inr (st\<lparr>currentFilter := filter_name f, currentSearch := q,
                   listEl := Some (map render_row
                     (filter (\<lambda>t. spec_filter_predicate f t \<and> spec_search_match q (the_text t)) (tasks st)))\<rparr>)
         \<and> spec_search_match [] txt"
proof -
  have "txt = [] @ [] @ txt \<and> spec_same_ignoring_case [] []"
    by (simp add: spec_same_ignoring_case_def)
  then have "spec_search_match [] txt"
    unfolding spec_search_match_def by blast
  with assms show ?thesis
    by (auto simp: renderTasks_def Let_def filter_tasks_valid)
qed

text \<open>The tasks "Buy milk" (active) and "Walk dog" (completed): active with "milk"
  shows the first, completed with "dog" the second, all with the empty term both; and
  with terms of another case, active with "MILK" shows the first and all with "wALK D"
  the second.\<close>

theorem render_visible_subset_witness:
  "renderTasks (Some ''active'') (Some ''milk'') (page None accept_all [task_A, task_B]) =
     Inr ((page None accept_all [task_A, task_B])
            \<lparr>currentFilter := ''active'', currentSearch := ''milk'', listEl := Some [render_row task_A]\<rparr>) \<and>
   renderTasks (Some ''completed'') (Some ''dog'') (page None accept_all [task_A, task_B]) =
     Inr ((page None accept_all [task_A, task_B])
            \<lparr>currentFilter := ''completed'', currentSearch := ''dog'', listEl := Some [render_row task_B]\<rparr>) \<and>
   renderTasks (Some ''all'') (Some []) (page None accept_all [task_A, task_B]) =
     Inr ((page None accept_all [task_A, task_B])
            \<lparr>currentFilter := ''all'', currentSearch := [],
             listEl := Some [render_row task_A, render_row task_B]\<rparr>) \<and>
   renderTasks (Some ''active'') (Some ''MILK'') (page None accept_all [task_A, task_B]) =
     Inr ((page None accept_all [task_A, task_B])
            \<lparr>currentFilter := ''active'', currentSearch := ''MILK'', listEl := Some [render_row task_A]\<rparr>) \<and>
   renderTasks (Some ''all'') (Some ''wALK D'') (page None accept_all [task_A, task_B]) =
     Inr ((page None accept_all [task_A, task_B])
            \<lparr>currentFilter := ''all'', currentSearch := ''wALK D'', listEl := Some [render_row task_B]\<rparr>)"
proof -
  let ?pg = "page None accept_all [task_A, task_B]"
  have a: "listEl ?pg \<noteq> None"
    by (simp add: page_def)
  have b: "\<forall>t\<in>set (tasks ?pg). valid_task t"
    by simp
  from render_visible_subset [OF a b, of Active "''milk''", THEN conjunct1]
  have "renderTasks (Some ''active'') (Some ''milk'') ?pg =
     Inr (?pg\<lparr>currentFilter := ''active'', currentSearch := ''milk'', listEl := Some [render_row task_A]\<rparr>)"
    by (simp add: example_search the_text_def)
  moreover from render_visible_subset [OF a b, of Completed "''dog''", THEN conjunct1]
  have "renderTasks (Some ''completed'') (Some ''dog'') ?pg =
     Inr (?pg\<lparr>currentFilter := ''completed'', currentSearch := ''dog'', listEl := Some [render_row task_B]\<rparr>)"
    by (simp add: example_search the_text_def)
  moreover from render_visible_subset [OF a b, of All "[]", THEN conjunct1]
  have "renderTasks (Some ''all'') (Some []) ?pg =
     Inr (?pg\<lparr>currentFilter := ''all'', currentSearch := [],
             listEl := Some [render_row task_A, render_row task_B]\<rparr>)"
    by (simp add: example_search the_text_def)
  moreover from render_visible_subset [OF a b, of Active "''MILK''", THEN conjunct1]
  have "renderTasks (Some ''active'') (Some ''MILK'') ?pg =
     Inr (?pg\<lparr>currentFilter := ''active'', currentSearch := ''MILK'', listEl := Some [render_row task_A]\<rparr>)"
    by (simp add: example_search the_text_def)
  moreover from render_visible_subset [OF a b, of All "''wALK D''", THEN conjunct1]
  have "renderTasks (Some ''all'') (Some ''wALK D'') ?pg =
     Inr (?pg\<lparr>currentFilter := ''all'', currentSearch := ''wALK D'', listEl := Some [render_row task_B]\<rparr>)"
    by (simp add: example_search the_text_def)
  ultimately show ?thesis by simp
qed

subsection \<open>Editing a task\<close>

lemma trim_empty_iff: "(trim s = []) = (\<forall>c\<in>set s. is_space c)"
proof -
  have "(trim s = []) = (\<forall>c\<in>set (dropWhile is_space s). is_space c)"
    by (simp add: trim_def dropWhile_eq_Nil_conv)
  also have "\<dots> = (dropWhile is_space s = [])"
  proof
    assume a: "\<forall>c\<in>set (dropWhile is_space s). is_space c"
    show "dropWhile is_space s = []"
    proof (rule ccontr)
      assume n: "dropWhile is_space s \<noteq> []"
      then have "\<not> is_space (hd (dropWhile is_space s))" by (rule hd_dropWhile)
      moreover from n have "hd (dropWhile is_space s) \<in> set (dropWhile is_space s)" by simp
      ultimately show False using a by blast
    qed
  next
    assume e: "dropWhile is_space s = []"
    show "\<forall>c\<in>set (dropWhile is_space s). is_space c"
      unfolding e by simp
  qed
  also have "\<dots> = (\<forall>c\<in>set s. is_space c)"
    by (simp add: dropWhile_eq_Nil_conv)
  finally show ?thesis .
qed

lemma trim_examples: "trim '' Buy bread '' = ''Buy bread''" "trim ''  '' = []"
  by code_simp+

lemma space_examples: "is_space CHR '' ''" "\<not> is_space CHR ''B''"
  by code_simp+

text \<open>
  C8. A click on the edit button of a row whose \<^verbatim>\<open>data-id\<close> resolves to the task at
  position \<open>k\<close> in memory: when \<^verbatim>\<open>prompt\<close> is cancelled, nothing changes (the task, the
  storage, the console and the list stay as they are); when it answers with a string of
  white space only (the empty string included), nothing changes either, so nothing is
  persisted and nothing is drawn again; otherwise the trimmed answer becomes the text of
  that task in memory, the task goes to \<open>update\<close>, and \<open>renderTasks\<close> runs with the
  current filter and search term.
\<close>

theorem edit_click:
  assumes "find_task i (tasks st) = Some k"
  shows "on_click Edit_btn (Some i) None st = Inr st
         \<and> ((\<forall>c\<in>set s. is_space c) \<longrightarrow> on_click Edit_btn (Some i) (Some s) st = Inr st)
         \<and> ((\<exists>c\<in>set s. \<not> is_space c) \<longrightarrow>
              on_click Edit_btn (Some i) (Some s) st =
                renderTasks None None
                  (TaskStore_update ((tasks st ! k)\<lparr>task_text := Some (JStr (trim s))\<rparr>)
                     (st\<lparr>tasks := (tasks st)[k := (tasks st ! k)\<lparr>task_text := Some (JStr (trim s))\<rparr>]\<rparr>)))"
  using assms by (auto simp: on_click_def Let_def trim_empty_iff)

text \<open>The tasks 1 and 2 persisted and in memory, edit clicked on the row of task 1:
  cancel and a blank answer leave the page as it is; the answer " Buy bread " is
  trimmed, stored and drawn.\<close>

theorem edit_click_witness:
  "find_task ''1'' (tasks (page (Some (written [task_A, task_B])) accept_all [task_A, task_B])) = Some 0 \<and>
   on_click Edit_btn (Some ''1'') None (page (Some (written [task_A, task_B])) accept_all [task_A, task_B])
     = Inr (page (Some (written [task_A, task_B])) accept_all [task_A, task_B]) \<and>
   on_click Edit_btn (Some ''1'') (Some ''  '') (page (Some (written [task_A, task_B])) accept_all [task_A, task_B])
     = Inr (page (Some (written [task_A, task_B])) accept_all [task_A, task_B]) \<and>
   on_click Edit_btn (Some ''1'') (Some '' Buy bread '')
       (page (Some (written [task_A, task_B])) accept_all [task_A, task_B])
     = Inr (page (Some (written [task_A\<lparr>task_text := Some (JStr ''Buy bread'')\<rparr>, task_B])) accept_all
              [task_A\<lparr>task_text := Some (JStr ''Buy bread'')\<rparr>, task_B]
            \<lparr>listEl := Some [render_row (task_A\<lparr>task_text := Some (JStr ''Buy bread'')\<rparr>),
                             render_row task_B]\<rparr>)"
proof -
  let ?pg = "page (Some (written [task_A, task_B])) accept_all [task_A, task_B]"
  let ?t = "task_A\<lparr>task_text := Some (JStr ''Buy bread'')\<rparr>"
  have f: "find_task ''1'' (tasks ?pg) = Some 0"
    by simp
  note e = edit_click [OF f]
  have sp: "\<forall>c\<in>set ''  ''. is_space c"
    by (simp add: space_examples)
  have ns: "\<exists>c\<in>set '' Buy bread ''. \<not> is_space c"
    by (simp add: space_examples)
  have u: "TaskStore_update ?t (?pg\<lparr>tasks := [?t, task_B]\<rparr>) =
             ?pg\<lparr>tasks := [?t, task_B], stored := Some (written [?t, task_B])\<rparr>"
  proof -
    let ?st = "?pg\<lparr>tasks := [?t, task_B]\<rparr>"
    have ls: "TaskStore_load ?st = ([task_A, task_B], ?st)"
      by (simp add: load_written)
    have "TaskStore_update ?t ?st = TaskStore_save ((loaded ?st)[0 := ?t]) (snd (TaskStore_load ?st))"
      by (rule update_first) (simp_all add: ls)
    then show ?thesis
      by (simp add: ls save_accepted accept_all_def)
  qed
  have r: "renderTasks None None (?pg\<lparr>tasks := [?t, task_B], stored := Some (written [?t, task_B])\<rparr>) =
             Inr (?pg\<lparr>tasks := [?t, task_B], stored := Some (written [?t, task_B]),
                      listEl := Some [render_row ?t, render_row task_B]\<rparr>)"
    by (simp add: renderTasks_def page_def Let_def matchesSearch_def matchesFilter_def toLowerCase_def)
  from e [THEN conjunct1] have "on_click Edit_btn (Some ''1'') None ?pg = Inr ?pg" .
  moreover from e [of "''  ''", THEN conjunct2, THEN conjunct1, THEN mp, OF sp]
  have "on_click Edit_btn (Some ''1'') (Some ''  '') ?pg = Inr ?pg" .
  moreover from e [of "'' Buy bread ''", THEN conjunct2, THEN conjunct2, THEN mp, OF ns]
  have "on_click Edit_btn (Some ''1'') (Some '' Buy bread '') ?pg =
          Inr (?pg\<lparr>tasks := [?t, task_B], stored := Some (written [?t, task_B]),
                   listEl := Some [render_row ?t, render_row task_B]\<rparr>)"
    by (simp add: trim_examples u r)
  ultimately show ?thesis using f by (simp add: page_def)
qed

end
